theory Spec2Isabelle
  imports Main
begin

section \<open>Python values\<close>

text \<open>
  A Python \<open>str\<close> is a sequence of code points: \<open>len\<close> and slicing count code points, so
  a string is modelled as the list of its code points. \<open>py\<close> embeds an ASCII literal.
  The Korean literals of the source are constants given by their code points.
\<close>

type_synonym pystr = "nat list"

definition py :: "string \<Rightarrow> pystr" where
  "py s = map of_char s"

text \<open>
  The values stored in the dictionaries of the program. \<open>PTime\<close> is a \<open>datetime\<close>, in
  microseconds; \<open>PFloat\<close> is a float that the source rounds to two decimals, in hundredths;
  \<open>PDict\<close> is a dictionary with string keys, in insertion order.
\<close>

datatype pyval =
    PNone
  | PStr pystr
  | PInt int
  | PBool bool
  | PTime int
  | PFloat int
  | PList "pyval list"
  | PDict "(string \<times> pyval) list"

type_synonym pydict = "(string \<times> pyval) list"

text \<open>
  The exceptions of Python that the model tells apart. \<open>KeyError\<close> carries the key.
\<close>

datatype py_error =
  StopIteration | TypeError | KeyError pyval | IndexError | AttributeError | BinasciiError

section \<open>The job store (app/routers/analyze.py, class JobManager)\<close>

text \<open>The literal of \<open>create_job\<close>'s initial message.\<close>

definition msg_waiting :: pystr where
  "msg_waiting = [45824, 44592, 32, 51473, 46, 46, 46]"

text \<open>
  A job is a dictionary: a map from field names to values. The store is an
  \<open>OrderedDict\<close>: an association list in insertion order, with the three operations the
  source uses. Assigning to a key that is present keeps its position.
\<close>

type_synonym job = "string \<rightharpoonup> pyval"

fun od_set :: "'k \<Rightarrow> 'v \<Rightarrow> ('k \<times> 'v) list \<Rightarrow> ('k \<times> 'v) list" where
  "od_set k v [] = [(k, v)]"
| "od_set k v ((k', v') # xs) =
     (if k' = k then (k, v) # xs else (k', v') # od_set k v xs)"

definition od_get :: "('k \<times> 'v) list \<Rightarrow> 'k \<Rightarrow> 'v option" where
  "od_get xs k = map_of xs k"

definition od_del :: "'k \<Rightarrow> ('k \<times> 'v) list \<Rightarrow> ('k \<times> 'v) list" where
  "od_del k xs = filter (\<lambda>p. fst p \<noteq> k) xs"

text \<open>
  What the store does outside its table, in the order it does it: \<open>RmTree\<close> is a call of
  \<open>cleanup_job_files\<close> (the best-effort removal of the job's directory), \<open>DelJob\<close> is the
  removal of the record by the sweep.
\<close>

datatype effect = RmTree pystr | DelJob pystr

record job_manager =
  jobs :: "(pystr \<times> job) list"
  max_jobs :: int
  expire_hours :: int
  effects :: "effect list"

definition cleanup_job_files :: "job_manager \<Rightarrow> pystr \<Rightarrow> job_manager" where
  "cleanup_job_files m job_id = m\<lparr>effects := effects m @ [RmTree job_id]\<rparr>"

text \<open>\<open>timedelta(hours=h)\<close> in microseconds.\<close>

definition timedelta_hours :: "int \<Rightarrow> int" where
  "timedelta_hours h = h * 3600000000"

text \<open>
  The test of the sweep's comprehension:
  \<open>job.get("created_at", datetime.now()) < expire_threshold\<close>. A \<open>created_at\<close> that is
  not a \<open>datetime\<close> makes the comparison raise.
\<close>

definition is_expired :: "int \<Rightarrow> int \<Rightarrow> job \<Rightarrow> py_error + bool" where
  "is_expired now threshold j =
     (case j ''created_at'' of
        None \<Rightarrow> Inr (now < threshold)
      | Some (PTime t) \<Rightarrow> Inr (t < threshold)
      | Some _ \<Rightarrow> Inl TypeError)"

fun expired_jobs :: "int \<Rightarrow> int \<Rightarrow> (pystr \<times> job) list \<Rightarrow> py_error + pystr list" where
  "expired_jobs now threshold [] = Inr []"
| "expired_jobs now threshold ((job_id, j) # rest) =
     (case is_expired now threshold j of
        Inl e \<Rightarrow> Inl e
      | Inr b \<Rightarrow>
          (case expired_jobs now threshold rest of
             Inl e \<Rightarrow> Inl e
           | Inr ids \<Rightarrow> Inr (if b then job_id # ids else ids)))"

text \<open>The first loop of the sweep: clean the files, then delete the record.\<close>

fun delete_expired :: "job_manager \<Rightarrow> pystr list \<Rightarrow> job_manager" where
  "delete_expired m [] = m"
| "delete_expired m (job_id # ids) =
     delete_expired
       ((cleanup_job_files m job_id)
          \<lparr>jobs := od_del job_id (jobs m),
           effects := effects (cleanup_job_files m job_id) @ [DelJob job_id]\<rparr>) ids"

text \<open>
  The second loop: \<open>while len(self._jobs) > self._max_jobs\<close>, remove the first key.
  \<open>next(iter(...))\<close> on an empty table raises \<open>StopIteration\<close>, which happens when
  \<open>max_jobs\<close> is negative.
\<close>

function evict_over_capacity :: "job_manager \<Rightarrow> py_error + job_manager" where
  "evict_over_capacity m =
     (if int (length (jobs m)) > max_jobs m then
        (case jobs m of
           [] \<Rightarrow> Inl StopIteration
         | (oldest_job_id, _) # _ \<Rightarrow>
             evict_over_capacity
               ((cleanup_job_files m oldest_job_id)
                  \<lparr>jobs := od_del oldest_job_id (jobs m),
                   effects := effects (cleanup_job_files m oldest_job_id) @ [DelJob oldest_job_id]\<rparr>))
      else Inr m)"
  by pat_completeness auto
termination
  by (relation "measure (\<lambda>m. length (jobs m))")
     (auto simp: od_del_def cleanup_job_files_def less_Suc_eq_le)

declare evict_over_capacity.simps [simp del]

definition cleanup_old_jobs :: "job_manager \<Rightarrow> int \<Rightarrow> py_error + job_manager" where
  "cleanup_old_jobs m now =
     (let expire_threshold = now - timedelta_hours (expire_hours m) in
      case expired_jobs now expire_threshold (jobs m) of
        Inl e \<Rightarrow> Inl e
      | Inr ids \<Rightarrow> evict_over_capacity (delete_expired m ids))"

text \<open>
  \<open>create_job\<close> reads the clock three times: for \<open>created_at\<close>, for \<open>updated_at\<close> and in
  the sweep. The readings are parameters.
\<close>

definition new_job :: "pystr \<Rightarrow> pystr \<Rightarrow> pystr \<Rightarrow> int \<Rightarrow> int \<Rightarrow> job" where
  "new_job job_id url video_id t_created t_updated =
     [''job_id'' \<mapsto> PStr job_id,
      ''status'' \<mapsto> PStr (py ''pending''),
      ''progress'' \<mapsto> PInt 0,
      ''message'' \<mapsto> PStr msg_waiting,
      ''url'' \<mapsto> PStr url,
      ''video_id'' \<mapsto> PStr video_id,
      ''result'' \<mapsto> PNone,
      ''created_at'' \<mapsto> PTime t_created,
      ''updated_at'' \<mapsto> PTime t_updated]"

definition create_job ::
  "job_manager \<Rightarrow> pystr \<Rightarrow> pystr \<Rightarrow> pystr \<Rightarrow> int \<Rightarrow> int \<Rightarrow> int \<Rightarrow> py_error + (job \<times> job_manager)" where
  "create_job m job_id url video_id t_created t_updated t_sweep =
     (let j = new_job job_id url video_id t_created t_updated;
          m1 = m\<lparr>jobs := od_set job_id j (jobs m)\<rparr>
      in case cleanup_old_jobs m1 t_sweep of
           Inl e \<Rightarrow> Inl e
         | Inr m2 \<Rightarrow> Inr (j, m2))"

definition get_job :: "job_manager \<Rightarrow> pystr \<Rightarrow> job option" where
  "get_job m job_id = od_get (jobs m) job_id"

text \<open>
  \<open>update_job(job_id, **kwargs)\<close>: the keyword arguments are a dictionary; \<open>now\<close> is the
  clock reading for \<open>updated_at\<close>.
\<close>

definition update_job :: "job_manager \<Rightarrow> pystr \<Rightarrow> pydict \<Rightarrow> int \<Rightarrow> job_manager" where
  "update_job m job_id kwargs now =
     (case od_get (jobs m) job_id of
        Some j \<Rightarrow>
          m\<lparr>jobs := od_set job_id ((j ++ map_of (rev kwargs))(''updated_at'' \<mapsto> PTime now)) (jobs m)\<rparr>
      | None \<Rightarrow> m)"

definition delete_job :: "job_manager \<Rightarrow> pystr \<Rightarrow> bool \<times> job_manager" where
  "delete_job m job_id =
     (case od_get (jobs m) job_id of
        Some _ \<Rightarrow> (True, m\<lparr>jobs := od_del job_id (jobs m)\<rparr>)
      | None \<Rightarrow> (False, m))"

section \<open>The pipeline (app/routers/analyze.py, process_video)\<close>

text \<open>
  An exception is its class, as far as the handlers of the pipeline tell classes apart, and
  the text \<open>str(e)\<close>. \<open>OtherException\<close> is any other subclass of \<open>Exception\<close>.
\<close>

datatype exn_kind = YouTubeDownloadError | TranscriptionError | RecipeParseError | OtherException

datatype exn = Exn exn_kind pystr

fun exn_kind_of :: "exn \<Rightarrow> exn_kind" where
  "exn_kind_of (Exn k s) = k"

fun exn_str :: "exn \<Rightarrow> pystr" where
  "exn_str (Exn k s) = s"

text \<open>The message literals of the pipeline, in the order of the source.\<close>

definition msg_downloading :: pystr where
  "msg_downloading = [50689, 49345, 32, 45796, 50868, 47196, 46300, 32, 51473, 46, 46, 46]"

definition msg_download_failed :: pystr where
  "msg_download_failed = [50689, 49345, 32, 45796, 50868, 47196, 46300, 32, 49892, 54056, 58, 32]"

definition msg_download_done :: pystr where
  "msg_download_done = [45796, 50868, 47196, 46300, 32, 50756, 47308, 33]"

definition msg_stt_running :: pystr where
  "msg_stt_running = [51020, 49457, 32, 51064, 49885, 32, 51473, 46, 46, 46, 32, 40, 87, 104, 105, 115, 112, 101, 114, 32, 65, 73, 41]"

definition msg_stt_failed :: pystr where
  "msg_stt_failed = [51020, 49457, 32, 51064, 49885, 32, 49892, 54056, 58, 32]"

definition msg_no_text :: pystr where
  "msg_no_text = [50689, 49345, 50640, 49436, 32, 53581, 49828, 53944, 47484, 32, 52628, 52636, 54624, 32, 49688, 32, 50630, 49845, 45768, 45796, 46, 32, 51020, 49457, 51060, 45208, 32, 51088, 47561, 51060, 32, 54252, 54632, 46108, 32, 50689, 49345, 51064, 51648, 32, 54869, 51064, 54644, 51452, 49464, 50836, 46]"

definition msg_text_done :: pystr where
  "msg_text_done = [53581, 49828, 53944, 32, 52628, 52636, 32, 50756, 47308, 33]"

definition msg_parsing :: pystr where
  "msg_parsing = [71, 80, 84, 45, 52, 111, 47196, 32, 47112, 49884, 54588, 32, 48516, 49437, 32, 51473, 46, 46, 46]"

definition msg_parse_failed :: pystr where
  "msg_parse_failed = [47112, 49884, 54588, 32, 48516, 49437, 32, 49892, 54056, 58, 32]"

definition msg_parse_done :: pystr where
  "msg_parse_done = [47112, 49884, 54588, 32, 48516, 49437, 32, 50756, 47308, 33]"

definition msg_all_done :: pystr where
  "msg_all_done = [47112, 49884, 54588, 32, 52628, 52636, 32, 50756, 47308, 33]"

definition msg_error_prefix :: pystr where
  "msg_error_prefix = [50724, 47448, 32, 48156, 49373, 58, 32]"

text \<open>
  The collaborators of one run: the directory creation, the three providers, the clock
  reading at each of the seven places where the run calls \<open>update_job\<close>, and the elapsed times that
  \<open>round(time.time() - start, 2)\<close> yields, in hundredths of a second.
\<close>

record pipeline_env =
  mkdir :: "pystr \<Rightarrow> exn option"
  download_video :: "pystr \<Rightarrow> pystr \<Rightarrow> exn + pydict"
  transcribe_audio :: "pyval \<Rightarrow> exn + pydict"
  parse_recipe :: "pydict \<Rightarrow> exn + pyval"
  clock :: "nat \<Rightarrow> int"
  elapsed :: "string \<Rightarrow> int"

definition MIN_TRANSCRIPT_LENGTH :: nat where
  "MIN_TRANSCRIPT_LENGTH = 20"

text \<open>\<open>len\<close> of a value; a value without a length raises \<open>TypeError\<close>.\<close>

definition type_name :: "pyval \<Rightarrow> string" where
  "type_name v =
     (case v of
        PNone \<Rightarrow> ''NoneType'' | PStr _ \<Rightarrow> ''str'' | PInt _ \<Rightarrow> ''int'' | PBool _ \<Rightarrow> ''bool''
      | PTime _ \<Rightarrow> ''datetime.datetime'' | PFloat _ \<Rightarrow> ''float'' | PList _ \<Rightarrow> ''list''
      | PDict _ \<Rightarrow> ''dict'')"

definition py_len :: "pyval \<Rightarrow> exn + nat" where
  "py_len v =
     (case v of
        PStr s \<Rightarrow> Inr (length s)
      | PList xs \<Rightarrow> Inr (length xs)
      | PDict d \<Rightarrow> Inr (length d)
      | _ \<Rightarrow> Inl (Exn OtherException
                 (py (''object of type '' @ [CHR 39] @ type_name v @ [CHR 39] @ '' has no len()''))))"

definition dict_get :: "pydict \<Rightarrow> string \<Rightarrow> pyval \<Rightarrow> pyval" where
  "dict_get d k dflt = (case map_of d k of Some v \<Rightarrow> v | None \<Rightarrow> dflt)"

definition is_valid_transcript :: "pydict option \<Rightarrow> exn + bool" where
  "is_valid_transcript transcript =
     (case transcript of
        None \<Rightarrow> Inr False
      | Some d \<Rightarrow>
          if d = [] then Inr False
          else (case py_len (dict_get d ''full_text'' (PStr [])) of
                  Inl e \<Rightarrow> Inl e
                | Inr n \<Rightarrow> Inr (n \<ge> MIN_TRANSCRIPT_LENGTH)))"

text \<open>
  Each stage takes the store and returns it with the stage's result or exception: an
  exception does not undo the updates made before it.
\<close>

definition step_download ::
  "pipeline_env \<Rightarrow> job_manager \<Rightarrow> pystr \<Rightarrow> pystr \<Rightarrow> (exn + pydict) \<times> job_manager" where
  "step_download env m job_id url =
     (let m1 = update_job m job_id
                 [(''status'', PStr (py ''processing'')), (''step'', PStr (py ''download'')),
                  (''message'', PStr msg_downloading), (''progress'', PInt 5)] (clock env 0)
      in case download_video env url job_id of
           Inl e \<Rightarrow>
             (if exn_kind_of e = YouTubeDownloadError
              then (Inl (Exn OtherException (msg_download_failed @ exn_str e)), m1)
              else (Inl e, m1))
         | Inr video_info \<Rightarrow>
             (Inr video_info,
              update_job m1 job_id
                [(''message'', PStr msg_download_done), (''progress'', PInt 25),
                 (''video_info'', PDict video_info)] (clock env 1)))"

definition step_extract_transcript ::
  "pipeline_env \<Rightarrow> job_manager \<Rightarrow> pystr \<Rightarrow> pyval \<Rightarrow> (exn + pydict \<times> pystr) \<times> job_manager" where
  "step_extract_transcript env m job_id audio_path =
     (let m1 = update_job m job_id
                 [(''step'', PStr (py ''stt'')), (''message'', PStr msg_stt_running),
                  (''progress'', PInt 35)] (clock env 2)
      in case transcribe_audio env audio_path of
           Inl e \<Rightarrow>
             (if exn_kind_of e = TranscriptionError
              then (Inl (Exn OtherException (msg_stt_failed @ exn_str e)), m1)
              else (Inl e, m1))
         | Inr transcript \<Rightarrow>
             (case is_valid_transcript (Some transcript) of
                Inl e \<Rightarrow> (Inl e, m1)
              | Inr False \<Rightarrow> (Inl (Exn OtherException msg_no_text), m1)
              | Inr True \<Rightarrow>
                  (Inr (transcript, py ''whisper''),
                   update_job m1 job_id
                     [(''message'', PStr msg_text_done), (''progress'', PInt 50)] (clock env 3))))"

definition step_parse_recipe ::
  "pipeline_env \<Rightarrow> job_manager \<Rightarrow> pystr \<Rightarrow> pydict \<Rightarrow> (exn + pyval) \<times> job_manager" where
  "step_parse_recipe env m job_id transcript =
     (let m1 = update_job m job_id
                 [(''step'', PStr (py ''parsing'')), (''message'', PStr msg_parsing),
                  (''progress'', PInt 55)] (clock env 4)
      in case parse_recipe env transcript of
           Inl e \<Rightarrow>
             (if exn_kind_of e = RecipeParseError
              then (Inl (Exn OtherException (msg_parse_failed @ exn_str e)), m1)
              else (Inl e, m1))
         | Inr recipe \<Rightarrow>
             (Inr recipe,
              update_job m1 job_id
                [(''message'', PStr msg_parse_done), (''progress'', PInt 90)] (clock env 5)))"

text \<open>
  The three stages of the \<open>try\<close> block, up to the result dictionary. \<open>video_info["audio_path"]\<close>
  raises \<open>KeyError\<close> when the key is missing; its text is the quoted key.
\<close>

definition pipeline_stages ::
  "pipeline_env \<Rightarrow> job_manager \<Rightarrow> pystr \<Rightarrow> pystr \<Rightarrow> (exn + pydict) \<times> job_manager" where
  "pipeline_stages env m job_id url =
     (case step_download env m job_id url of
        (Inl e, m1) \<Rightarrow> (Inl e, m1)
      | (Inr video_info, m1) \<Rightarrow>
          (case map_of video_info ''audio_path'' of
             None \<Rightarrow> (Inl (Exn OtherException (py ([CHR 39] @ ''audio_path'' @ [CHR 39]))), m1)
           | Some audio_path \<Rightarrow>
               (case step_extract_transcript env m1 job_id audio_path of
                  (Inl e, m2) \<Rightarrow> (Inl e, m2)
                | (Inr (transcript, transcript_source), m2) \<Rightarrow>
                    (case step_parse_recipe env m2 job_id transcript of
                       (Inl e, m3) \<Rightarrow> (Inl e, m3)
                     | (Inr recipe, m3) \<Rightarrow>
                         (Inr [(''recipe'', recipe),
                               (''video_info'', PDict video_info),
                               (''transcript'', PDict transcript),
                               (''timing'', PDict
                                  [(''download'', PFloat (elapsed env ''download'')),
                                   (''transcript'', PFloat (elapsed env ''transcript'')),
                                   (''transcript_source'', PStr transcript_source),
                                   (''parsing'', PFloat (elapsed env ''parsing'')),
                                   (''total'', PFloat (elapsed env ''total''))])],
                          m3)))))"

text \<open>
  \<open>process_video\<close>: the directory is made before the \<open>try\<close>, so its failure escapes;
  every exception of the stages is caught and written to the job.
\<close>

definition process_video ::
  "pipeline_env \<Rightarrow> job_manager \<Rightarrow> pystr \<Rightarrow> pystr \<Rightarrow> exn + job_manager" where
  "process_video env m job_id url =
     (case mkdir env job_id of
        Some e \<Rightarrow> Inl e
      | None \<Rightarrow>
          (case pipeline_stages env m job_id url of
             (Inr result, m1) \<Rightarrow>
               Inr (update_job m1 job_id
                      [(''step'', PStr (py ''done'')), (''message'', PStr msg_all_done),
                       (''progress'', PInt 100), (''status'', PStr (py ''completed'')),
                       (''result'', PDict result)] (clock env 6))
           | (Inl e, m1) \<Rightarrow>
               Inr (update_job m1 job_id
                      [(''status'', PStr (py ''failed'')),
                       (''message'', PStr (msg_error_prefix @ exn_str e)),
                       (''progress'', PInt 0)] (clock env 6))))"

section \<open>The chat sessions (app/routers/chat.py)\<close>

definition msg_session_not_found :: pystr where
  "msg_session_not_found = [49464, 49496, 51012, 32, 52286, 51012, 32, 49688, 32, 50630, 49845, 45768, 45796, 46]"

definition msg_bad_step :: pystr where
  "msg_bad_step = [51096, 47803, 46108, 32, 45800, 44228, 32, 48264, 54840, 51077, 45768, 45796, 46]"

definition msg_image_too_big :: pystr where
  "msg_image_too_big = [51060, 48120, 51648, 32, 53356, 44592, 44032, 32, 45320, 47924, 32, 53373, 45768, 45796, 46, 32, 52572, 45824, 32, 49, 48, 77, 66, 44620, 51648, 32, 54728, 50857, 46121, 45768, 45796, 46]"

definition msg_step_open :: pystr where
  "msg_step_open = [91, 83, 116, 101, 112, 32]"

definition msg_step_close :: pystr where
  "msg_step_close = [32, 51652, 54665, 32, 51473, 93, 32]"

definition msg_no_choices :: pystr where
  "msg_no_choices = [51025, 45813, 50640, 32, 99, 104, 111, 105, 99, 101, 115, 44032, 32, 50630, 49845, 45768, 45796]"

definition msg_unknown_error :: pystr where
  "msg_unknown_error = [50508, 32, 49688, 32, 50630, 45716, 32, 50724, 47448]"

definition msg_ai_failed :: pystr where
  "msg_ai_failed = [65, 73, 32, 51025, 45813, 32, 49373, 49457, 32, 49892, 54056, 58, 32]"

definition msg_none :: pystr where
  "msg_none = [50630, 51020]"

definition msg_dish :: pystr where
  "msg_dish = [50836, 47532]"

definition msg_normal :: pystr where
  "msg_normal = [48372, 53685]"

definition MAX_HISTORY_MESSAGES :: nat where
  "MAX_HISTORY_MESSAGES = 6"

definition MAX_IMAGE_SIZE_MB :: nat where
  "MAX_IMAGE_SIZE_MB = 10"

definition MAX_IMAGE_SIZE_BYTES :: nat where
  "MAX_IMAGE_SIZE_BYTES = MAX_IMAGE_SIZE_MB * 1024 * 1024"

definition SESSION_EXPIRY_SECONDS :: int where
  "SESSION_EXPIRY_SECONDS = 3600"

definition API_MAX_RETRIES :: int where
  "API_MAX_RETRIES = 2"

text \<open>
  What a handler raises: an \<open>HTTPException\<close> with its status code and detail, or an
  exception that no handler of the module catches.
\<close>

datatype http_error = HTTPException int pystr | Uncaught py_error

text \<open>
  A session is the dictionary that \<open>start_cooking_session\<close> stores, with its fixed keys as
  fields. \<open>steps\<close> is whatever value the recipe has under that key; an entry of the history
  is a dictionary.
  \<open>created_at\<close> is a reading of \<open>time.time()\<close>, in seconds.
\<close>

record session =
  recipe :: pydict
  current_step :: int
  total_steps :: int
  steps :: pyval
  completed_steps :: "int list"
  chat_history :: "pydict list"
  ingredients :: pyval
  created_at :: int

type_synonym sessions = "pystr \<rightharpoonup> session"

definition get_session :: "sessions \<Rightarrow> pystr \<Rightarrow> http_error + session" where
  "get_session cooking_sessions sid =
     (case cooking_sessions sid of
        None \<Rightarrow> Inl (HTTPException 404 msg_session_not_found)
      | Some s \<Rightarrow> Inr s)"

definition validate_step_number :: "int \<Rightarrow> int \<Rightarrow> http_error option" where
  "validate_step_number step_number n_total =
     (if step_number < 1 \<or> step_number > n_total
      then Some (HTTPException 400 msg_bad_step) else None)"

definition validate_image_size :: "nat list \<Rightarrow> http_error option" where
  "validate_image_size image_bytes =
     (if length image_bytes > MAX_IMAGE_SIZE_BYTES
      then Some (HTTPException 400 msg_image_too_big) else None)"

text \<open>\<open>str\<close> of an integer.\<close>

fun str_nat :: "nat \<Rightarrow> pystr" where
  "str_nat n = (if n < 10 then [48 + n] else str_nat (n div 10) @ [48 + n mod 10])"

declare str_nat.simps [simp del]

definition str_int :: "int \<Rightarrow> pystr" where
  "str_int i = (if i < 0 then 45 # str_nat (nat (- i)) else str_nat (nat i))"

text \<open>
  \<open>len(steps)\<close> in a handler: for a value without a length it raises \<open>TypeError\<close>, which
  no handler catches.
\<close>

definition steps_len :: "pyval \<Rightarrow> http_error + nat" where
  "steps_len v = (case py_len v of Inl e \<Rightarrow> Inl (Uncaught TypeError) | Inr n \<Rightarrow> Inr n)"

text \<open>
  \<open>steps[i]\<close>: an element of a list or a character of a string, counted from the end when
  \<open>i\<close> is negative (\<open>wrap_index\<close> gives the position, if there is one); a dictionary has
  only string keys, so an integer key is missing; any other value cannot be indexed.
\<close>

definition wrap_index :: "nat \<Rightarrow> int \<Rightarrow> nat option" where
  "wrap_index len i =
     (if 0 \<le> i \<and> i < int len then Some (nat i)
      else if - int len \<le> i \<and> i < 0 then Some (nat (int len + i))
      else None)"

definition py_index :: "pyval \<Rightarrow> int \<Rightarrow> py_error + pyval" where
  "py_index v i =
     (case v of
        PList xs \<Rightarrow>
          (case wrap_index (length xs) i of
             Some j \<Rightarrow> Inr (xs ! j)
           | None \<Rightarrow> Inl IndexError)
      | PStr cs \<Rightarrow>
          (case wrap_index (length cs) i of
             Some j \<Rightarrow> Inr (PStr [cs ! j])
           | None \<Rightarrow> Inl IndexError)
      | PDict d \<Rightarrow> Inl (KeyError (PInt i))
      | _ \<Rightarrow> Inl TypeError)"

text \<open>\<open>x.get(key, default)\<close> on a step: a step that is not a dictionary has no \<open>get\<close>.\<close>

definition step_get :: "pyval \<Rightarrow> string \<Rightarrow> pyval \<Rightarrow> http_error + pyval" where
  "step_get step k dflt =
     (case step of PDict d \<Rightarrow> Inr (dict_get d k dflt) | _ \<Rightarrow> Inl (Uncaught AttributeError))"

text \<open>
  The text \<open>f"[Step {step_number} ...] {message}"\<close> of a user turn, and the content that
  \<open>_build_user_content\<close> builds: the image part, when there is one, then the text part.
\<close>

definition user_text :: "int \<Rightarrow> pystr \<Rightarrow> pystr" where
  "user_text step_number message = msg_step_open @ str_int step_number @ msg_step_close @ message"

definition build_user_content :: "pystr \<Rightarrow> int \<Rightarrow> pystr option \<Rightarrow> pyval list" where
  "build_user_content message step_number image_base64 =
     (case image_base64 of
        Some b \<Rightarrow>
          (if b \<noteq> [] then
             [PDict [(''type'', PStr (py ''image_url'')),
                     (''image_url'', PDict [(''url'', PStr (py ''data:image/jpeg;base64,'' @ b))])]]
           else [])
      | None \<Rightarrow> [])
     @ [PDict [(''type'', PStr (py ''text'')), (''text'', PStr (user_text step_number message))]]"

text \<open>
  The provider. The k-th call of \<open>client.chat.completions.create\<close> with a list of messages
  returns a response, given by the contents of its choices, or raises. The classes are those
  the handlers of \<open>_call_chat_api\<close> tell apart, in their order: \<open>RateLimitError\<close>,
  \<open>APIConnectionError\<close>, any other \<open>APIError\<close>, any other \<open>Exception\<close>.
\<close>

datatype api_error_kind = RateLimitError | APIConnectionError | APIError | OtherError

datatype api_outcome = Response "pystr option list" | Raises api_error_kind pystr

type_synonym chat_api = "nat \<Rightarrow> pydict list \<Rightarrow> api_outcome"

text \<open>
  For a response without choices the source evaluates
  \<open>APIError(msg, response=None, body=None)\<close>, with \<open>msg_no_choices\<close> as message. The
  constructor of the library that the module imports (the \<open>OpenAI\<close> client, openai 1.0 or later) is
  \<open>__init__(self, message, request, *, body)\<close>: it has no parameter \<open>response\<close>, so the call
  raises \<open>TypeError\<close> before any \<open>APIError\<close> exists. The exception raised at this place is
  therefore not an \<open>APIError\<close>, and its text is the one below.
\<close>

definition msg_constructor_type_error :: pystr where
  "msg_constructor_type_error =
     py (''APIError.__init__() got an unexpected keyword argument ''
         @ [CHR 39] @ ''response'' @ [CHR 39])"

text \<open>
  One iteration of the loop of \<open>_call_chat_api\<close>, for the attempts that remain. The result
  is the reply or the last error, with the requests sent so far. After a connection or API
  error the loop goes on to the next attempt, with \<open>continue\<close> or, at the last attempt, by
  leaving the handler.
\<close>

fun call_attempts ::
  "chat_api \<Rightarrow> pydict list \<Rightarrow> int \<Rightarrow> nat list \<Rightarrow> (api_error_kind \<times> pystr) option \<Rightarrow>
     ((api_error_kind \<times> pystr) option + pystr) \<times> pydict list list" where
  "call_attempts api messages max_retries [] last_error = (Inl last_error, [])"
| "call_attempts api messages max_retries (attempt # rest) last_error =
     (let outcome =
            (case api attempt messages of
               Response [] \<Rightarrow> Inl (OtherError, msg_constructor_type_error)
             | Response (content # _) \<Rightarrow>
                 Inr (case content of None \<Rightarrow> [] | Some c \<Rightarrow> c)
             | Raises k s \<Rightarrow> Inl (k, s))
      in case outcome of
           Inr reply \<Rightarrow> (Inr reply, [messages])
         | Inl (RateLimitError, s) \<Rightarrow> (Inl (Some (RateLimitError, s)), [messages])
         | Inl (APIConnectionError, s) \<Rightarrow>
             (let (r, sent) =
                    (if int attempt < max_retries
                     then call_attempts api messages max_retries rest (Some (APIConnectionError, s))
                     else call_attempts api messages max_retries rest (Some (APIConnectionError, s)))
              in (r, messages # sent))
         | Inl (APIError, s) \<Rightarrow>
             (let (r, sent) =
                    (if int attempt < max_retries
                     then call_attempts api messages max_retries rest (Some (APIError, s))
                     else call_attempts api messages max_retries rest (Some (APIError, s)))
              in (r, messages # sent))
         | Inl (OtherError, s) \<Rightarrow> (Inl (Some (OtherError, s)), [messages]))"

text \<open>\<open>range(max_retries + 1)\<close>.\<close>

definition py_range :: "int \<Rightarrow> nat list" where
  "py_range n = [0 ..< nat n]"

definition call_chat_api ::
  "chat_api \<Rightarrow> pydict list \<Rightarrow> int \<Rightarrow> (http_error + pystr) \<times> pydict list list" where
  "call_chat_api api messages max_retries =
     (case call_attempts api messages max_retries (py_range (max_retries + 1)) None of
        (Inr reply, sent) \<Rightarrow> (Inr reply, sent)
      | (Inl last_error, sent) \<Rightarrow>
          (let error_msg = (case last_error of Some (k, s) \<Rightarrow> take 100 s | None \<Rightarrow> msg_unknown_error)
           in (Inl (HTTPException 500 (msg_ai_failed @ error_msg)), sent)))"

text \<open>
  The environment of a chat turn: the base64 decoder, the prompt template (the file
  \<open>assistant.txt\<close>, applied to the title, the step number, the instruction, the tips, the
  difficulty and the number of steps) and the provider.
\<close>

record chat_env =
  b64decode :: "pystr \<Rightarrow> py_error + nat list"
  prompt_format :: "pyval \<Rightarrow> int \<Rightarrow> pyval \<Rightarrow> pyval \<Rightarrow> pyval \<Rightarrow> int \<Rightarrow> pystr"
  completions_create :: chat_api

definition build_system_prompt ::
  "chat_env \<Rightarrow> pydict \<Rightarrow> pyval \<Rightarrow> int \<Rightarrow> int \<Rightarrow> http_error + pystr" where
  "build_system_prompt env rcp step step_number n_total =
     (case step_get step ''instruction'' (PStr []) of
        Inl e \<Rightarrow> Inl e
      | Inr instruction \<Rightarrow>
          (case step_get step ''tips'' (PStr msg_none) of
             Inl e \<Rightarrow> Inl e
           | Inr tips \<Rightarrow>
               Inr (prompt_format env (dict_get rcp ''title'' (PStr msg_dish)) step_number
                      instruction tips (dict_get rcp ''difficulty'' (PStr msg_normal)) n_total)))"

text \<open>
  \<open>complete_step\<close>. The result is the response (the next step and whether all steps are
  done) or the error, and the sessions after the call.
\<close>

definition complete_step ::
  "sessions \<Rightarrow> pystr \<Rightarrow> int \<Rightarrow> (http_error + int \<times> bool) \<times> sessions" where
  "complete_step cooking_sessions sid step_number =
     (case get_session cooking_sessions sid of
        Inl e \<Rightarrow> (Inl e, cooking_sessions)
      | Inr s \<Rightarrow>
          (let s1 = (if step_number \<notin> set (completed_steps s)
                     then s\<lparr>completed_steps := completed_steps s @ [step_number]\<rparr> else s);
               s2 = (if step_number < total_steps s1
                     then s1\<lparr>current_step := step_number + 1\<rparr> else s1);
               is_finished = (int (length (completed_steps s2)) = total_steps s2)
           in (Inr (current_step s2, is_finished), cooking_sessions(sid \<mapsto> s2))))"

text \<open>
  \<open>start_cooking_session\<close>, with the sweep of the expired sessions first. The new
  session id (a fresh UUID in the source) and the clock reading are parameters. The result
  is the number of steps, or the exception that \<open>len(steps)\<close> raises, which leaves the
  swept sessions without a new one.
\<close>

definition cleanup_expired_sessions :: "sessions \<Rightarrow> int \<Rightarrow> sessions" where
  "cleanup_expired_sessions cooking_sessions current_time =
     (\<lambda>sid. case cooking_sessions sid of
              None \<Rightarrow> None
            | Some s \<Rightarrow>
                if current_time - created_at s > SESSION_EXPIRY_SECONDS then None else Some s)"

definition start_cooking_session ::
  "sessions \<Rightarrow> pystr \<Rightarrow> pydict \<Rightarrow> int \<Rightarrow> (http_error + int) \<times> sessions" where
  "start_cooking_session cooking_sessions sid rcp now =
     (let swept = cleanup_expired_sessions cooking_sessions now;
          stps = dict_get rcp ''steps'' (PList [])
      in case steps_len stps of
           Inl e \<Rightarrow> (Inl e, swept)
         | Inr n \<Rightarrow>
             (Inr (int n),
              swept(sid \<mapsto>
                \<lparr>recipe = rcp, current_step = 1, total_steps = int n, steps = stps,
                 completed_steps = [], chat_history = [],
                 ingredients = dict_get rcp ''ingredients'' (PList []), created_at = now\<rparr>)))"

record chat_request =
  session_id :: pystr
  step_number :: int
  message :: pystr
  image_base64 :: "pystr option"

record chat_response =
  reply :: pystr
  step_info :: pydict
  session_status :: pydict

text \<open>The two entries that a committed turn appends to the history.\<close>

definition user_entry :: "chat_request \<Rightarrow> pydict" where
  "user_entry request =
     (if image_base64 request \<noteq> None \<and> image_base64 request \<noteq> Some [] then
        [(''role'', PStr (py ''user'')),
         (''content'', PList (build_user_content (message request) (step_number request)
                                (image_base64 request))),
         (''step_number'', PInt (step_number request)),
         (''has_image'', PBool True)]
      else
        [(''role'', PStr (py ''user'')),
         (''content'', PStr (user_text (step_number request) (message request))),
         (''step_number'', PInt (step_number request)),
         (''has_image'', PBool False)])"

definition assistant_entry :: "pystr \<Rightarrow> int \<Rightarrow> pydict" where
  "assistant_entry rep step_no =
     [(''role'', PStr (py ''assistant'')), (''content'', PStr rep),
      (''step_number'', PInt step_no)]"

text \<open>
  The messages of the request: the system prompt, the last \<open>MAX_HISTORY_MESSAGES\<close> entries
  of the history with their role and content, and the new user turn.
\<close>

definition history_window :: "pydict list \<Rightarrow> pydict list" where
  "history_window h = drop (length h - MAX_HISTORY_MESSAGES) h"

definition build_messages :: "pystr \<Rightarrow> pydict list \<Rightarrow> pyval list \<Rightarrow> pydict list" where
  "build_messages system_prompt history user_content =
     [[(''role'', PStr (py ''system'')), (''content'', PStr system_prompt)]]
     @ map (\<lambda>msg. [(''role'', dict_get msg ''role'' PNone),
                    (''content'', dict_get msg ''content'' PNone)]) (history_window history)
     @ [[(''role'', PStr (py ''user'')), (''content'', PList user_content)]]"

text \<open>
  \<open>send_message\<close>. The result is the response or the error, the sessions after the call
  and the requests sent to the provider. \<open>progress_percent\<close> is computed in floating point
  and is left out of the response. \<open>now\<close> is the reading of \<open>time.time()\<close>.
\<close>

definition send_message ::
  "chat_env \<Rightarrow> sessions \<Rightarrow> chat_request \<Rightarrow> int \<Rightarrow>
     (http_error + chat_response) \<times> sessions \<times> pydict list list" where
  "send_message env cooking_sessions request now =
     (case (case image_base64 request of
              None \<Rightarrow> None
            | Some b \<Rightarrow>
                if b = [] then None
                else (case b64decode env b of
                        Inl e \<Rightarrow> Some (Uncaught e)
                      | Inr image_bytes \<Rightarrow> validate_image_size image_bytes)) of
        Some e \<Rightarrow> (Inl e, cooking_sessions, [])
      | None \<Rightarrow>
     (case get_session cooking_sessions (session_id request) of
        Inl e \<Rightarrow> (Inl e, cooking_sessions, [])
      | Inr s \<Rightarrow>
     (case steps_len (steps s) of
        Inl e \<Rightarrow> (Inl e, cooking_sessions, [])
      | Inr n_steps \<Rightarrow>
     (case validate_step_number (step_number request) (int n_steps) of
        Some e \<Rightarrow> (Inl e, cooking_sessions, [])
      | None \<Rightarrow>
     (case py_index (steps s) (step_number request - 1) of
        Inl e \<Rightarrow> (Inl (Uncaught e), cooking_sessions, [])
      | Inr step \<Rightarrow>
     (case build_system_prompt env (recipe s) step (step_number request) (int n_steps) of
        Inl e \<Rightarrow> (Inl e, cooking_sessions, [])
      | Inr system_prompt \<Rightarrow>
     (let user_content = build_user_content (message request) (step_number request)
                           (image_base64 request);
          messages = build_messages system_prompt (chat_history s) user_content
      in case call_chat_api (completions_create env) messages API_MAX_RETRIES of
           (Inl e, sent) \<Rightarrow> (Inl e, cooking_sessions, sent)
         | (Inr rep, sent) \<Rightarrow>
             (let s' = s\<lparr>chat_history :=
                           chat_history s @ [user_entry request,
                                             assistant_entry rep (step_number request)],
                         current_step := step_number request,
                         created_at := now\<rparr>
              in (Inr \<lparr>reply = rep,
                       step_info =
                         [(''step_number'', PInt (step_number request)),
                          (''instruction'', (case step of PDict d \<Rightarrow> dict_get d ''instruction'' (PStr []) | _ \<Rightarrow> PNone)),
                          (''tips'', (case step of PDict d \<Rightarrow> dict_get d ''tips'' (PStr []) | _ \<Rightarrow> PNone)),
                          (''is_completed'', PBool (step_number request \<in> set (completed_steps s')))],
                       session_status =
                         [(''current_step'', PInt (current_step s')),
                          (''completed_steps'', PList (map PInt (completed_steps s')))]\<rparr>,
                  cooking_sessions(session_id request \<mapsto> s'),
                  sent)))))))))"

section \<open>Notions used in the statements and proofs\<close>

text \<open>
  \<open>keeps_result m m' job_id\<close>: if the job is in \<open>m\<close>, it is in \<open>m'\<close> with the same
  \<open>result\<close> field.
\<close>

definition keeps_result :: "job_manager \<Rightarrow> job_manager \<Rightarrow> pystr \<Rightarrow> bool" where
  "keeps_result m m' job_id \<longleftrightarrow>
     (\<forall>j. get_job m job_id = Some j \<longrightarrow>
        (\<exists>j'. get_job m' job_id = Some j' \<and> j' ''result'' = j ''result''))"

subsection \<open>Example inputs\<close>

text \<open>
  A run whose three providers succeed, the same run with a download that fails, and a store
  that holds one pending job.
\<close>

definition demo_env :: pipeline_env where
  "demo_env =
     \<lparr>mkdir = (\<lambda>_. None),
      download_video = (\<lambda>url d. Inr [(''audio_path'', PStr (py ''a.mp3'')), (''title'', PStr (py ''soup''))]),
      transcribe_audio = (\<lambda>a. Inr [(''full_text'', PStr (replicate 20 97))]),
      parse_recipe = (\<lambda>tr. Inr (PDict [(''title'', PStr (py ''soup''))])),
      clock = (\<lambda>k. int k),
      elapsed = (\<lambda>_. 150)\<rparr>"

definition demo_env_private :: pipeline_env where
  "demo_env_private =
     demo_env\<lparr>download_video := (\<lambda>url d. Inl (Exn YouTubeDownloadError (py ''private video'')))\<rparr>"

definition demo_store :: job_manager where
  "demo_store =
     \<lparr>jobs = [([97], new_job [97] (py ''u'') (py ''v'') 0 0)],
      max_jobs = 100, expire_hours = 24, effects = []\<rparr>"

text \<open>
  The outcomes of a provider call after which \<open>_call_chat_api\<close> goes on to the next
  attempt, the error text of an outcome, and the result when an outcome ends the loop.
\<close>

fun retryable :: "api_outcome \<Rightarrow> bool" where
  "retryable (Response []) = False"
| "retryable (Response (c # cs)) = False"
| "retryable (Raises k s) = (k = APIConnectionError \<or> k = APIError)"



text \<open>
  Providers for the examples: one that always answers, one that always raises a generic
  \<open>APIError\<close>, one that always raises \<open>RateLimitError\<close>; an environment with a decoder
  that yields 15 MB; a recipe of three steps, the sessions after it was started under the
  id \<open>[115]\<close>, and two requests for its third step.
\<close>

definition api_ok :: chat_api where
  "api_ok k msgs = Response [Some (py ''stir gently'')]"

definition api_always_error :: chat_api where
  "api_always_error k msgs = Raises APIError (py ''server error'')"

definition api_rate_limited :: chat_api where
  "api_rate_limited k msgs = Raises RateLimitError (py ''slow down'')"

definition demo_image_bytes :: "nat list" where
  "demo_image_bytes = replicate (15 * 1024 * 1024) 0"

definition demo_chat_env :: chat_env where
  "demo_chat_env =
     \<lparr>b64decode = (\<lambda>b. Inr demo_image_bytes),
      prompt_format = (\<lambda>title n instruction tips difficulty n_total. py ''prompt''),
      completions_create = api_ok\<rparr>"

definition demo_recipe :: pydict where
  "demo_recipe =
     [(''title'', PStr (py ''soup'')),
      (''steps'', PList [PDict [(''instruction'', PStr (py ''chop''))],
                         PDict [(''instruction'', PStr (py ''boil''))],
                         PDict [(''instruction'', PStr (py ''serve''))]])]"

definition demo_sessions :: sessions where
  "demo_sessions = snd (start_cooking_session Map.empty [115] demo_recipe 0)"

definition demo_request :: chat_request where
  "demo_request = \<lparr>session_id = [115], step_number = 3, message = py ''done?'', image_base64 = None\<rparr>"

definition demo_request_image :: chat_request where
  "demo_request_image = demo_request\<lparr>image_base64 := Some (py ''aGVsbG8='')\<rparr>"


text \<open>
  The error that an outcome leaves in \<open>last_error\<close>, and what the loop of
  \<open>_call_chat_api\<close> returns when an outcome ends it.
\<close>

fun outcome_error :: "api_outcome \<Rightarrow> api_error_kind \<times> pystr" where
  "outcome_error (Response []) = (OtherError, msg_constructor_type_error)"
| "outcome_error (Response (c # cs)) = (OtherError, [])"
| "outcome_error (Raises k s) = (k, s)"

fun stop_result :: "api_outcome \<Rightarrow> (api_error_kind \<times> pystr) option + pystr" where
  "stop_result (Response (c # cs)) = Inr (case c of None \<Rightarrow> [] | Some x \<Rightarrow> x)"
| "stop_result out = Inl (Some (outcome_error out))"

definition demo_session_1 :: session where
  "demo_session_1 = \<lparr>recipe = demo_recipe, current_step = 2, total_steps = 3,
           steps = PList [PDict [(''instruction'', PStr (py ''chop''))],
                          PDict [(''instruction'', PStr (py ''boil''))],
                          PDict [(''instruction'', PStr (py ''serve''))]],
           completed_steps = [1], chat_history = [], ingredients = PList [], created_at = 0\<rparr>"


subsection \<open>Notions for the sweep of the job store\<close>

text \<open>
  The creation time of a stored record, the effects of removing a list of records in order
  (for each one the cleaning of its files, then its deletion), and the \<open>n\<close> most recent
  elements of a list kept in creation order.
\<close>

definition created_time :: "pystr \<times> job \<Rightarrow> int" where
  "created_time p = (case snd p ''created_at'' of Some (PTime t) \<Rightarrow> t | _ \<Rightarrow> 0)"

definition removal_effects :: "(pystr \<times> job) list \<Rightarrow> effect list" where
  "removal_effects ps = concat (map (\<lambda>p. [RmTree (fst p), DelJob (fst p)]) ps)"

definition most_recent :: "nat \<Rightarrow> 'a list \<Rightarrow> 'a list" where
  "most_recent n xs = drop (length xs - n) xs"

text \<open>
  A call of \<open>create_job\<close> with its three clock readings; the record it stores; a sequence
  of calls run from a store, stopping at the first exception; the clock does not go back
  over the readings of a sequence; a record is within the window at \<open>now\<close> when its age is
  at most \<open>expire_hours\<close>.
\<close>

record create_call =
  c_job_id :: pystr
  c_url :: pystr
  c_video_id :: pystr
  t_created :: int
  t_updated :: int
  t_sweep :: int

definition created_record :: "create_call \<Rightarrow> pystr \<times> job" where
  "created_record c =
     (c_job_id c, new_job (c_job_id c) (c_url c) (c_video_id c) (t_created c) (t_updated c))"

fun run_creates :: "job_manager \<Rightarrow> create_call list \<Rightarrow> py_error + job_manager" where
  "run_creates m [] = Inr m"
| "run_creates m (c # cs) =
     (case create_job m (c_job_id c) (c_url c) (c_video_id c) (t_created c) (t_updated c)
             (t_sweep c) of
        Inl e \<Rightarrow> Inl e
      | Inr (j, m') \<Rightarrow> run_creates m' cs)"

definition clock_readings :: "create_call list \<Rightarrow> int list" where
  "clock_readings cs = concat (map (\<lambda>c. [t_created c, t_updated c, t_sweep c]) cs)"

definition within_window :: "int \<Rightarrow> int \<Rightarrow> pystr \<times> job \<Rightarrow> bool" where
  "within_window hours now p \<longleftrightarrow> now - created_time p \<le> timedelta_hours hours"

text \<open>A store for the examples: capacity 2, a window of one hour, one job created at 0.\<close>

definition small_store :: job_manager where
  "small_store =
     \<lparr>jobs = [([97], new_job [97] (py ''u'') (py ''v'') 0 0)],
      max_jobs = 2, expire_hours = 1, effects = []\<rparr>"

text \<open>An empty store of capacity 2 with a window of one hour, and three calls.\<close>

definition empty_store :: job_manager where
  "empty_store = \<lparr>jobs = [], max_jobs = 2, expire_hours = 1, effects = []\<rparr>"

definition call_a :: create_call where
  "call_a = \<lparr>c_job_id = [97], c_url = py ''u'', c_video_id = py ''v'',
             t_created = 0, t_updated = 0, t_sweep = 0\<rparr>"

definition call_b :: create_call where
  "call_b = \<lparr>c_job_id = [98], c_url = py ''u'', c_video_id = py ''v'',
             t_created = 1, t_updated = 1, t_sweep = 1\<rparr>"

definition call_c :: create_call where
  "call_c = \<lparr>c_job_id = [99], c_url = py ''u'', c_video_id = py ''v'',
             t_created = 2, t_updated = 2, t_sweep = 2\<rparr>"

section \<open>Properties of the job store\<close>

lemma od_get_od_set_same: "od_get (od_set k v xs) k = Some v"
  by (induction xs) (auto simp: od_get_def)

lemma od_get_od_set_other: "k' \<noteq> k \<Longrightarrow> od_get (od_set k v xs) k' = od_get xs k'"
  by (induction xs) (auto simp: od_get_def)

lemma od_get_od_del: "od_get (od_del k xs) k' = (if k' = k then None else od_get xs k')"
  by (induction xs) (auto simp: od_get_def od_del_def)

lemma update_job_absent: "od_get (jobs m) job_id = None \<Longrightarrow> update_job m job_id kwargs now = m"
  by (simp add: update_job_def)

lemma get_job_update_job_None:
  "get_job (update_job m k kw t) job_id = None \<longleftrightarrow> get_job m job_id = None"
  by (cases "k = job_id")
     (auto simp: update_job_def get_job_def od_get_od_set_same od_get_od_set_other
           split: option.splits)

lemma get_job_update_job_same:
  "get_job m job_id = Some j \<Longrightarrow>
   get_job (update_job m job_id kw t) job_id =
     Some ((j ++ map_of (rev kw))(''updated_at'' \<mapsto> PTime t))"
  by (simp add: get_job_def update_job_def od_get_od_set_same)

lemma get_job_delete_job: "get_job (snd (delete_job m job_id)) job_id = None"
  by (auto simp: delete_job_def get_job_def od_get_od_del split: option.splits)

lemma demo_get: "get_job demo_store [97] = Some (new_job [97] (py ''u'') (py ''v'') 0 0)"
  by (simp add: demo_store_def get_job_def od_get_def)

subsection \<open>Updating a job that is not in the store\<close>

lemma step_download_absent:
  "od_get (jobs m) job_id = None \<Longrightarrow> snd (step_download env m job_id url) = m"
  by (auto simp: step_download_def update_job_absent Let_def split: sum.splits)

lemma step_extract_transcript_absent:
  "od_get (jobs m) job_id = None \<Longrightarrow> snd (step_extract_transcript env m job_id a) = m"
  by (auto simp: step_extract_transcript_def update_job_absent Let_def split: sum.splits bool.splits)

lemma step_parse_recipe_absent:
  "od_get (jobs m) job_id = None \<Longrightarrow> snd (step_parse_recipe env m job_id tr) = m"
  by (auto simp: step_parse_recipe_def update_job_absent Let_def split: sum.splits)

lemma pipeline_stages_absent:
  assumes "od_get (jobs m) job_id = None"
  shows "snd (pipeline_stages env m job_id url) = m"
proof -
  note a = step_download_absent [OF assms, of env url]
  show ?thesis
    using a step_extract_transcript_absent [OF assms, of env]
      step_parse_recipe_absent [OF assms, of env]
    by (auto simp: pipeline_stages_def split: prod.splits sum.splits option.splits)
       (metis snd_conv)+
qed

text \<open>
  Claim C8. When \<open>job_id\<close> is not in the store, \<open>update_job\<close> returns the store as it was,
  whatever the fields, and raises nothing (the model of \<open>update_job\<close> has no error result).
  In particular a whole run of \<open>process_video\<close> for a job that is not in the store, for
  instance after \<open>delete_job\<close>, ends without an exception and leaves the store as it was:
  the record is not created again.
\<close>

theorem update_job_absent_noop:
  "get_job m job_id = None \<Longrightarrow>
     update_job m job_id kwargs now = m \<and>
     (mkdir env job_id = None \<longrightarrow> process_video env m job_id url = Inr m)"
  using pipeline_stages_absent [of m job_id env url]
  by (auto simp: get_job_def update_job_absent process_video_def split: prod.splits sum.splits)

theorem update_job_absent_noop_witness:
  "get_job (snd (delete_job demo_store [97])) [97] = None \<and>
   mkdir demo_env [97] = None \<and>
   update_job (snd (delete_job demo_store [97])) [97]
     [(''status'', PStr (py ''completed'')), (''progress'', PInt 100)] 7
     = snd (delete_job demo_store [97]) \<and>
   process_video demo_env (snd (delete_job demo_store [97])) [97] (py ''u'')
     = Inr (snd (delete_job demo_store [97]))"
  using update_job_absent_noop
    [of "snd (delete_job demo_store [97])" "[97]"
        "[(''status'', PStr (py ''completed'')), (''progress'', PInt 100)]" 7 demo_env "py ''u''"]
  by (simp add: get_job_delete_job) (simp add: demo_env_def)

subsection \<open>Expired records and the sweep\<close>


lemma od_get_member: "distinct (map fst xs) \<Longrightarrow> (k, v) \<in> set xs \<Longrightarrow> od_get xs k = Some v"
  by (simp add: od_get_def)

lemma od_get_absent: "k \<notin> fst ` set xs \<Longrightarrow> od_get xs k = None"
  by (simp add: od_get_def map_of_eq_None_iff)

lemma od_set_member_other:
  "(k', v') \<in> set xs \<Longrightarrow> k' \<noteq> k \<Longrightarrow> (k', v') \<in> set (od_set k v xs)"
  by (induction xs) auto

lemma expired_jobs_member:
  "expired_jobs now th xs = Inr ids \<Longrightarrow> (k, j) \<in> set xs \<Longrightarrow> is_expired now th j = Inr True \<Longrightarrow>
   k \<in> set ids"
  by (induction xs arbitrary: ids) (auto split: sum.splits if_splits)

lemma delete_expired_jobs:
  "jobs (delete_expired m ids) = filter (\<lambda>p. fst p \<notin> set ids) (jobs m)"
  by (induction ids arbitrary: m) (auto simp: od_del_def cleanup_job_files_def conj_commute)

lemma evict_over_capacity_subset:
  "evict_over_capacity m = Inr m' \<Longrightarrow> set (jobs m') \<subseteq> set (jobs m)"
proof (induction m rule: evict_over_capacity.induct)
  case (1 m)
  show ?case
  proof (cases "int (length (jobs m)) > max_jobs m")
    case False
    then show ?thesis using "1.prems" by (simp add: evict_over_capacity.simps)
  next
    case True
    then obtain k v rest where j: "jobs m = (k, v) # rest"
      using "1.prems" by (cases "jobs m") (auto simp: evict_over_capacity.simps [of m])
    let ?m1 = "(cleanup_job_files m k)\<lparr>jobs := od_del k (jobs m),
                 effects := effects (cleanup_job_files m k) @ [DelJob k]\<rparr>"
    have e: "evict_over_capacity ?m1 = Inr m'"
      using "1.prems" True j by (simp add: evict_over_capacity.simps [of m])
    have "set (jobs m') \<subseteq> set (jobs ?m1)"
      using "1.IH" [OF True j refl e] .
    then show ?thesis by (auto simp: od_del_def)
  qed
qed

lemma create_job_sweeps_expired:
  assumes "(job_id, j) \<in> set (jobs m)"
    and "is_expired now (now - timedelta_hours (expire_hours m)) j = Inr True"
    and "new_id \<noteq> job_id"
    and "create_job m new_id url vid t1 t2 now = Inr (j', m')"
  shows "get_job m' job_id = None"
proof -
  let ?m1 = "m\<lparr>jobs := od_set new_id (new_job new_id url vid t1 t2) (jobs m)\<rparr>"
  from assms(4) have c: "cleanup_old_jobs ?m1 now = Inr m'"
    by (auto simp: create_job_def Let_def split: sum.splits)
  then obtain ids where ids: "expired_jobs now (now - timedelta_hours (expire_hours m)) (jobs ?m1) = Inr ids"
    and ev: "evict_over_capacity (delete_expired ?m1 ids) = Inr m'"
    by (auto simp: cleanup_old_jobs_def Let_def split: sum.splits)
  have "(job_id, j) \<in> set (jobs ?m1)"
    using assms(1,3) by (simp add: od_set_member_other)
  then have "job_id \<in> set ids"
    using expired_jobs_member [OF ids _ assms(2)] by blast
  then have "job_id \<notin> fst ` set (jobs (delete_expired ?m1 ids))"
    by (auto simp: delete_expired_jobs)
  then have "job_id \<notin> fst ` set (jobs m')"
    using evict_over_capacity_subset [OF ev] by auto
  then show ?thesis by (simp add: get_job_def od_get_absent)
qed

text \<open>
  Claim C10. Expiry is enforced only by the sweep of \<open>create_job\<close>. A record of the store
  that is expired at \<open>now\<close> is still returned by \<open>get_job\<close>, which reads the table without
  looking at the clock, and \<open>update_job\<close> keeps it in the store; a \<open>create_job\<close> of another
  job whose sweep runs at \<open>now\<close> removes it, and so does \<open>delete_job\<close>.
\<close>

theorem expired_job_visible_until_sweep:
  assumes "distinct (map fst (jobs m))"
    and "(job_id, j) \<in> set (jobs m)"
    and "is_expired now (now - timedelta_hours (expire_hours m)) j = Inr True"
  shows "get_job m job_id = Some j \<and>
         get_job (update_job m k kwargs t) job_id \<noteq> None \<and>
         (\<forall>new_id url vid t1 t2 j' m'.
            new_id \<noteq> job_id \<and> create_job m new_id url vid t1 t2 now = Inr (j', m')
              \<longrightarrow> get_job m' job_id = None) \<and>
         get_job (snd (delete_job m job_id)) job_id = None"
proof -
  have g: "get_job m job_id = Some j"
    using assms(1,2) by (simp add: get_job_def od_get_member)
  then have u: "get_job (update_job m k kwargs t) job_id \<noteq> None"
    by (simp add: get_job_update_job_None)
  show ?thesis
    using g u create_job_sweeps_expired [OF assms(2,3)] get_job_delete_job [of m job_id]
    by blast
qed

lemma small_store_create:
  "create_job small_store [98] (py ''u2'') (py ''v2'') 7200000000 7200000000 7200000000 =
     Inr (new_job [98] (py ''u2'') (py ''v2'') 7200000000 7200000000,
          \<lparr>jobs = [([98], new_job [98] (py ''u2'') (py ''v2'') 7200000000 7200000000)],
           max_jobs = 2, expire_hours = 1, effects = [RmTree [97], DelJob [97]]\<rparr>)"
  by (simp add: create_job_def small_store_def cleanup_old_jobs_def is_expired_def new_job_def
        timedelta_hours_def cleanup_job_files_def od_del_def evict_over_capacity.simps Let_def)

theorem expired_job_visible_until_sweep_witness:
  "distinct (map fst (jobs small_store)) \<and>
   ([97], new_job [97] (py ''u'') (py ''v'') 0 0) \<in> set (jobs small_store) \<and>
   is_expired 7200000000 (7200000000 - timedelta_hours (expire_hours small_store))
     (new_job [97] (py ''u'') (py ''v'') 0 0) = Inr True \<and>
   get_job small_store [97] = Some (new_job [97] (py ''u'') (py ''v'') 0 0) \<and>
   get_job (update_job small_store [97] [(''progress'', PInt 5)] 7200000000) [97] \<noteq> None \<and>
   (\<exists>j' m'. create_job small_store [98] (py ''u2'') (py ''v2'') 7200000000 7200000000 7200000000
              = Inr (j', m') \<and> get_job m' [97] = None)"
proof -
  have a: "distinct (map fst (jobs small_store))" by (simp add: small_store_def)
  have b: "([97], new_job [97] (py ''u'') (py ''v'') 0 0) \<in> set (jobs small_store)"
    by (simp add: small_store_def)
  have c: "is_expired 7200000000 (7200000000 - timedelta_hours (expire_hours small_store))
     (new_job [97] (py ''u'') (py ''v'') 0 0) = Inr True"
    by (simp add: is_expired_def new_job_def small_store_def timedelta_hours_def)
  note th = expired_job_visible_until_sweep [OF a b c, of "[97]" "[(''progress'', PInt 5)]" 7200000000]
  let ?m' = "\<lparr>jobs = [([98], new_job [98] (py ''u2'') (py ''v2'') 7200000000 7200000000)],
           max_jobs = 2, expire_hours = 1, effects = [RmTree [97], DelJob [97]]\<rparr>"
  from th have "[98] \<noteq> [97::nat] \<and>
      create_job small_store [98] (py ''u2'') (py ''v2'') 7200000000 7200000000 7200000000 =
        Inr (new_job [98] (py ''u2'') (py ''v2'') 7200000000 7200000000, ?m')
      \<longrightarrow> get_job ?m' [97] = None"
    by blast
  then have d: "get_job ?m' [97] = None"
    using small_store_create by simp
  show ?thesis
    using th a b c d small_store_create by simp
qed

section \<open>Properties of the pipeline\<close>

lemma keeps_result_refl: "keeps_result m m job_id"
  by (simp add: keeps_result_def)

lemma keeps_result_trans:
  "keeps_result m m1 job_id \<Longrightarrow> keeps_result m1 m2 job_id \<Longrightarrow> keeps_result m m2 job_id"
  by (fastforce simp: keeps_result_def)

lemma keeps_result_update:
  "''result'' \<notin> fst ` set kw \<Longrightarrow> keeps_result m (update_job m job_id kw t) job_id"
  unfolding keeps_result_def
  by (auto simp: get_job_update_job_same map_add_def map_of_eq_None_iff [THEN iffD2]
           split: option.splits)

lemma step_download_keeps: "keeps_result m (snd (step_download env m job_id url)) job_id"
  unfolding step_download_def Let_def
  by (auto split: sum.splits intro!: keeps_result_update keeps_result_trans [OF keeps_result_update keeps_result_update])

lemma step_extract_transcript_keeps:
  "keeps_result m (snd (step_extract_transcript env m job_id a)) job_id"
  unfolding step_extract_transcript_def Let_def
  by (auto split: sum.splits bool.splits intro!: keeps_result_update keeps_result_trans [OF keeps_result_update keeps_result_update])

lemma step_parse_recipe_keeps:
  "keeps_result m (snd (step_parse_recipe env m job_id tr)) job_id"
  unfolding step_parse_recipe_def Let_def
  by (auto split: sum.splits intro!: keeps_result_update keeps_result_trans [OF keeps_result_update keeps_result_update])

lemma pipeline_stages_keeps:
  "keeps_result m (snd (pipeline_stages env m job_id url)) job_id"
proof -
  obtain r1 m1 where s1: "step_download env m job_id url = (r1, m1)"
    by (cases "step_download env m job_id url") auto
  have k1: "keeps_result m m1 job_id"
    using step_download_keeps [of m env job_id url] s1 by simp
  show ?thesis
  proof (cases r1)
    case (Inl e)
    then show ?thesis using s1 k1 by (simp add: pipeline_stages_def)
  next
    case (Inr video_info)
    show ?thesis
    proof (cases "map_of video_info ''audio_path''")
      case None
      then show ?thesis using s1 k1 Inr by (simp add: pipeline_stages_def)
    next
      case (Some a)
      obtain r2 m2 where s2: "step_extract_transcript env m1 job_id a = (r2, m2)"
        by (cases "step_extract_transcript env m1 job_id a") auto
      have k2: "keeps_result m m2 job_id"
        using step_extract_transcript_keeps [of m1 env job_id a] s2 k1
        by (auto intro: keeps_result_trans)
      show ?thesis
      proof (cases r2)
        case (Inl e)
        then show ?thesis using s1 s2 k2 Inr Some by (simp add: pipeline_stages_def)
      next
        case r2: (Inr ts)
        obtain tr src where ts: "ts = (tr, src)" by (cases ts) auto
        obtain r3 m3 where s3: "step_parse_recipe env m2 job_id tr = (r3, m3)"
          by (cases "step_parse_recipe env m2 job_id tr") auto
        have k3: "keeps_result m m3 job_id"
          using step_parse_recipe_keeps [of m2 env job_id tr] s3 k2
          by (auto intro: keeps_result_trans)
        show ?thesis
          using s1 s2 s3 k3 Inr Some r2 ts
          by (cases r3) (simp_all add: pipeline_stages_def)
      qed
    qed
  qed
qed

text \<open>
  Claim C6. When a stage of the run raises an exception \<open>e\<close> (the directory was made and
  the job is in the store), \<open>process_video\<close> ends normally and the job's record has
  \<open>status = "failed"\<close>, \<open>progress = 0\<close> and, as message, the error prefix followed by the
  text of \<open>e\<close>; the \<open>result\<close> field is what it was before the run, so the \<open>None\<close> set by
  \<open>create_job\<close> stays.
\<close>

theorem failed_run:
  assumes "mkdir env job_id = None"
    and "get_job m job_id = Some j"
    and "fst (pipeline_stages env m job_id url) = Inl e"
  shows "\<exists>m' j'. process_video env m job_id url = Inr m' \<and> get_job m' job_id = Some j' \<and>
           j' ''status'' = Some (PStr (py ''failed'')) \<and>
           j' ''progress'' = Some (PInt 0) \<and>
           j' ''message'' = Some (PStr (msg_error_prefix @ exn_str e)) \<and>
           j' ''result'' = j ''result''"
proof -
  obtain m1 where st: "pipeline_stages env m job_id url = (Inl e, m1)"
    using assms(3) by (cases "pipeline_stages env m job_id url") auto
  from pipeline_stages_keeps [of m env job_id url] st assms(2)
  obtain j1 where j1: "get_job m1 job_id = Some j1" "j1 ''result'' = j ''result''"
    by (auto simp: keeps_result_def)
  show ?thesis
    using assms(1) st j1
    by (simp add: process_video_def get_job_update_job_same)
qed

lemma demo_private_stages:
  "fst (pipeline_stages demo_env_private demo_store [97] (py ''u'')) =
     Inl (Exn OtherException (msg_download_failed @ py ''private video''))"
  by (simp add: pipeline_stages_def step_download_def demo_env_private_def demo_env_def Let_def)

theorem failed_run_witness:
  "mkdir demo_env_private [97] = None \<and>
   get_job demo_store [97] = Some (new_job [97] (py ''u'') (py ''v'') 0 0) \<and>
   fst (pipeline_stages demo_env_private demo_store [97] (py ''u'')) =
     Inl (Exn OtherException (msg_download_failed @ py ''private video'')) \<and>
   (\<exists>m' j'. process_video demo_env_private demo_store [97] (py ''u'') = Inr m' \<and>
      get_job m' [97] = Some j' \<and>
      j' ''status'' = Some (PStr (py ''failed'')) \<and>
      j' ''progress'' = Some (PInt 0) \<and>
      j' ''message'' = Some (PStr (msg_error_prefix @ msg_download_failed @ py ''private video'')) \<and>
      j' ''result'' = Some PNone)"
proof -
  have a: "mkdir demo_env_private [97] = None"
    by (simp add: demo_env_private_def demo_env_def)
  have r: "new_job [97] (py ''u'') (py ''v'') 0 0 ''result'' = Some PNone"
    by (simp add: new_job_def)
  show ?thesis
    using failed_run [OF a demo_get demo_private_stages] a demo_get demo_private_stages r
    by simp
qed

text \<open>
  Claim C7. When the three stages of the run end without an exception (the directory was
  made and the job is in the store), the job's record has \<open>progress = 100\<close>,
  \<open>status = "completed"\<close>, \<open>step = "done"\<close> and a \<open>result\<close> that holds the recipe, the video
  information and the transcript the providers returned, and the timing of each stage and
  of the whole run.
\<close>

theorem completed_run:
  assumes "mkdir env job_id = None"
    and "get_job m job_id = Some j"
    and "fst (pipeline_stages env m job_id url) = Inr result"
  shows "\<exists>m' j'. process_video env m job_id url = Inr m' \<and> get_job m' job_id = Some j' \<and>
           j' ''progress'' = Some (PInt 100) \<and>
           j' ''status'' = Some (PStr (py ''completed'')) \<and>
           j' ''step'' = Some (PStr (py ''done'')) \<and>
           j' ''result'' = Some (PDict result) \<and>
           (\<exists>rcp video_info audio_path transcript src.
              download_video env url job_id = Inr video_info \<and>
              transcribe_audio env audio_path = Inr transcript \<and>
              parse_recipe env transcript = Inr rcp \<and>
              result = [(''recipe'', rcp),
                        (''video_info'', PDict video_info),
                        (''transcript'', PDict transcript),
                        (''timing'', PDict
                           [(''download'', PFloat (elapsed env ''download'')),
                            (''transcript'', PFloat (elapsed env ''transcript'')),
                            (''transcript_source'', PStr src),
                            (''parsing'', PFloat (elapsed env ''parsing'')),
                            (''total'', PFloat (elapsed env ''total''))])])"
proof -
  obtain m1 where st: "pipeline_stages env m job_id url = (Inr result, m1)"
    using assms(3) by (cases "pipeline_stages env m job_id url") auto
  from pipeline_stages_keeps [of m env job_id url] st assms(2)
  obtain j1 where j1: "get_job m1 job_id = Some j1"
    by (auto simp: keeps_result_def)
  have shape: "\<exists>rcp video_info audio_path transcript src.
              download_video env url job_id = Inr video_info \<and>
              transcribe_audio env audio_path = Inr transcript \<and>
              parse_recipe env transcript = Inr rcp \<and>
              result = [(''recipe'', rcp),
                        (''video_info'', PDict video_info),
                        (''transcript'', PDict transcript),
                        (''timing'', PDict
                           [(''download'', PFloat (elapsed env ''download'')),
                            (''transcript'', PFloat (elapsed env ''transcript'')),
                            (''transcript_source'', PStr src),
                            (''parsing'', PFloat (elapsed env ''parsing'')),
                            (''total'', PFloat (elapsed env ''total''))])]"
    using st
    unfolding pipeline_stages_def step_download_def step_extract_transcript_def
      step_parse_recipe_def Let_def
    by (auto split: prod.splits sum.splits option.splits if_splits bool.splits)
  show ?thesis
    using assms(1) st j1 shape
    by (simp add: process_video_def get_job_update_job_same)
qed

lemma demo_stages:
  "fst (pipeline_stages demo_env demo_store [97] (py ''u'')) =
     Inr [(''recipe'', PDict [(''title'', PStr (py ''soup''))]),
          (''video_info'', PDict [(''audio_path'', PStr (py ''a.mp3'')), (''title'', PStr (py ''soup''))]),
          (''transcript'', PDict [(''full_text'', PStr (replicate 20 97))]),
          (''timing'', PDict [(''download'', PFloat 150), (''transcript'', PFloat 150),
                              (''transcript_source'', PStr (py ''whisper'')),
                              (''parsing'', PFloat 150), (''total'', PFloat 150)])]"
  by (simp add: pipeline_stages_def step_download_def step_extract_transcript_def
        step_parse_recipe_def is_valid_transcript_def py_len_def dict_get_def
        MIN_TRANSCRIPT_LENGTH_def demo_env_def Let_def)

theorem completed_run_witness:
  "mkdir demo_env [97] = None \<and>
   get_job demo_store [97] = Some (new_job [97] (py ''u'') (py ''v'') 0 0) \<and>
   (\<exists>m' j'. process_video demo_env demo_store [97] (py ''u'') = Inr m' \<and>
      get_job m' [97] = Some j' \<and>
      j' ''progress'' = Some (PInt 100) \<and>
      j' ''status'' = Some (PStr (py ''completed'')) \<and>
      j' ''step'' = Some (PStr (py ''done'')) \<and>
      j' ''result'' = Some (PDict
         [(''recipe'', PDict [(''title'', PStr (py ''soup''))]),
          (''video_info'', PDict [(''audio_path'', PStr (py ''a.mp3'')), (''title'', PStr (py ''soup''))]),
          (''transcript'', PDict [(''full_text'', PStr (replicate 20 97))]),
          (''timing'', PDict [(''download'', PFloat 150), (''transcript'', PFloat 150),
                              (''transcript_source'', PStr (py ''whisper'')),
                              (''parsing'', PFloat 150), (''total'', PFloat 150)])]))"
proof -
  have a: "mkdir demo_env [97] = None"
    by (simp add: demo_env_def)
  show ?thesis
    using completed_run [OF a demo_get demo_stages] a demo_get
    by auto
qed

section \<open>Properties of the chat sessions\<close>

subsection \<open>The example session\<close>

lemma demo_session:
  "demo_sessions [115] =
     Some \<lparr>recipe = demo_recipe, current_step = 1, total_steps = 3,
           steps = PList [PDict [(''instruction'', PStr (py ''chop''))],
                          PDict [(''instruction'', PStr (py ''boil''))],
                          PDict [(''instruction'', PStr (py ''serve''))]],
           completed_steps = [], chat_history = [], ingredients = PList [], created_at = 0\<rparr>"
  by (simp add: demo_sessions_def start_cooking_session_def steps_len_def py_len_def
        demo_recipe_def dict_get_def Let_def)

lemma py_range_3: "py_range 3 = [0, 1, 2]"
  by (simp add: py_range_def upt_rec)

lemma call_ok: "call_chat_api api_ok msgs API_MAX_RETRIES = (Inr (py ''stir gently''), [msgs])"
  by (simp add: call_chat_api_def py_range_3 api_ok_def API_MAX_RETRIES_def)

lemma call_always_error:
  "call_chat_api api_always_error msgs API_MAX_RETRIES =
     (Inl (HTTPException 500 (msg_ai_failed @ py ''server error'')), [msgs, msgs, msgs])"
  by (simp add: call_chat_api_def py_range_3 api_always_error_def API_MAX_RETRIES_def py_def)

lemma call_rate_limited:
  "call_chat_api api_rate_limited msgs API_MAX_RETRIES =
     (Inl (HTTPException 500 (msg_ai_failed @ py ''slow down'')), [msgs])"
  by (simp add: call_chat_api_def py_range_3 api_rate_limited_def py_def API_MAX_RETRIES_def)

lemma demo_complete_1:
  "complete_step demo_sessions [115] 1 = (Inr (2, False), demo_sessions([115] \<mapsto> demo_session_1))"
  by (simp add: complete_step_def get_session_def demo_session Let_def demo_session_1_def)

lemma demo_send_3:
  "send_message demo_chat_env (demo_sessions([115] \<mapsto> demo_session_1)) demo_request 5 =
    (Inr \<lparr>reply = py ''stir gently'',
          step_info = [(''step_number'', PInt 3), (''instruction'', PStr (py ''serve'')),
                       (''tips'', PStr []), (''is_completed'', PBool False)],
          session_status = [(''current_step'', PInt 3), (''completed_steps'', PList [PInt 1])]\<rparr>,
     demo_sessions([115] \<mapsto>
       demo_session_1\<lparr>chat_history := [user_entry demo_request, assistant_entry (py ''stir gently'') 3],
                      current_step := 3, created_at := 5\<rparr>),
     [build_messages (py ''prompt'') [] (build_user_content (py ''done?'') 3 None)])"
  by (simp add: send_message_def demo_request_def get_session_def demo_session_1_def
        steps_len_def py_len_def py_index_def wrap_index_def
        validate_step_number_def build_system_prompt_def step_get_def dict_get_def
        demo_chat_env_def call_ok Let_def)

lemma demo_send_3_failing:
  "send_message (demo_chat_env\<lparr>completions_create := api_always_error\<rparr>)
     (demo_sessions([115] \<mapsto> demo_session_1)) demo_request 5 =
    (Inl (HTTPException 500 (msg_ai_failed @ py ''server error'')),
     demo_sessions([115] \<mapsto> demo_session_1),
     replicate 3 (build_messages (py ''prompt'') [] (build_user_content (py ''done?'') 3 None)))"
  by (simp add: send_message_def demo_request_def get_session_def demo_session_1_def
        steps_len_def py_len_def py_index_def wrap_index_def
        validate_step_number_def build_system_prompt_def step_get_def dict_get_def
        demo_chat_env_def call_always_error Let_def numeral_3_eq_3)

subsection \<open>The retry loop of the provider call\<close>

lemma call_attempts_retry:
  "retryable (api a msgs) \<Longrightarrow>
   call_attempts api msgs mr (a # rest) le =
     (fst (call_attempts api msgs mr rest (Some (outcome_error (api a msgs)))),
      msgs # snd (call_attempts api msgs mr rest (Some (outcome_error (api a msgs)))))"
  by (cases "api a msgs" rule: retryable.cases)
     (auto simp: Let_def split: prod.splits)

lemma call_attempts_stop:
  "\<not> retryable (api a msgs) \<Longrightarrow>
   call_attempts api msgs mr (a # rest) le = (stop_result (api a msgs), [msgs])"
proof (cases "api a msgs" rule: retryable.cases)
  case (3 k s)
  assume "\<not> retryable (api a msgs)"
  with 3 show ?thesis by (cases k) (auto simp: Let_def)
qed (auto simp: Let_def)

declare call_attempts.simps(2) [simp del]

lemma call_attempts_sent:
  "set (snd (call_attempts api msgs mr as le)) \<subseteq> {msgs}"
proof (induction as arbitrary: le)
  case Nil
  show ?case by simp
next
  case (Cons a as)
  note rt = call_attempts_retry [of api a msgs mr as le]
  note st = call_attempts_stop [of api a msgs mr as le]
  show ?case
  proof (cases "retryable (api a msgs)")
    case True
    show ?thesis using Cons.IH by (simp add: rt [OF True])
  next
    case False
    show ?thesis by (simp add: st [OF False])
  qed
qed

lemma call_attempts_sent_nonempty:
  "snd (call_attempts api msgs mr (a # as) le) \<noteq> []"
  using call_attempts_retry [of api a msgs mr as le] call_attempts_stop [of api a msgs mr as le]
  by (cases "retryable (api a msgs)") simp_all








subsection \<open>A chat turn\<close>

lemma call_chat_api_sent: "x \<in> set (snd (call_chat_api api msgs mr)) \<Longrightarrow> x = msgs"
  using call_attempts_sent [of api msgs mr "py_range (mr + 1)" None]
  by (auto simp: call_chat_api_def Let_def split: prod.splits sum.splits)

lemma call_chat_api_sent_nonempty: "0 \<le> mr \<Longrightarrow> snd (call_chat_api api msgs mr) \<noteq> []"
proof -
  assume "0 \<le> mr"
  then have "py_range (mr + 1) = 0 # [Suc 0 ..< nat (mr + 1)]"
    by (simp add: py_range_def upt_conv_Cons)
  then show ?thesis
    using call_attempts_sent_nonempty [of api msgs mr 0 "[Suc 0 ..< nat (mr + 1)]" None]
    by (auto simp: call_chat_api_def Let_def split: prod.splits sum.splits)
qed

lemma send_message_cases:
  assumes "send_message env cooking_sessions request now = (res, cooking_sessions', sent)"
  shows "(\<exists>e. res = Inl e \<and> cooking_sessions' = cooking_sessions \<and> sent = []) \<or>
         (\<exists>s messages.
            cooking_sessions (session_id request) = Some s \<and>
            sent = snd (call_chat_api (completions_create env) messages API_MAX_RETRIES) \<and>
            (case fst (call_chat_api (completions_create env) messages API_MAX_RETRIES) of
               Inl e \<Rightarrow> res = Inl e \<and> cooking_sessions' = cooking_sessions
             | Inr rep \<Rightarrow>
                 (\<exists>r. res = Inr r \<and> reply r = rep) \<and>
                 cooking_sessions' = cooking_sessions(session_id request \<mapsto>
                   s\<lparr>chat_history := chat_history s @ [user_entry request,
                                                        assistant_entry rep (step_number request)],
                     current_step := step_number request,
                     created_at := now\<rparr>)))"
proof -
  let ?img = "(case image_base64 request of
              None \<Rightarrow> None
            | Some b \<Rightarrow>
                if b = [] then None
                else (case b64decode env b of
                        Inl e \<Rightarrow> Some (Uncaught e)
                      | Inr image_bytes \<Rightarrow> validate_image_size image_bytes))"
  show ?thesis
  proof (cases ?img)
    case (Some e)
    then show ?thesis using assms by (auto simp: send_message_def)
  next
    case img: None
    show ?thesis
    proof (cases "cooking_sessions (session_id request)")
      case None
      then show ?thesis using assms img by (auto simp: send_message_def get_session_def)
    next
      case (Some s)
      show ?thesis
      proof (cases "steps_len (steps s)")
        case (Inl e)
        then show ?thesis using assms img \<open>cooking_sessions (session_id request) = Some s\<close>
          by (auto simp: send_message_def get_session_def)
      next
      case sl: (Inr n_steps)
      show ?thesis
      proof (cases "validate_step_number (step_number request) (int n_steps)")
        case (Some e)
        then show ?thesis using assms img sl \<open>cooking_sessions (session_id request) = Some s\<close>
          by (auto simp: send_message_def get_session_def)
      next
        case vs: None
        show ?thesis
        proof (cases "py_index (steps s) (step_number request - 1)")
          case (Inl e)
          then show ?thesis using assms img sl vs \<open>cooking_sessions (session_id request) = Some s\<close>
            by (auto simp: send_message_def get_session_def)
        next
        case ix: (Inr step)
        show ?thesis
        proof (cases "build_system_prompt env (recipe s) step (step_number request) (int n_steps)")
          case (Inl e)
          then show ?thesis using assms img sl vs ix \<open>cooking_sessions (session_id request) = Some s\<close>
            by (auto simp: send_message_def get_session_def Let_def)
        next
          case (Inr system_prompt)
          let ?messages = "build_messages system_prompt (chat_history s)
                             (build_user_content (message request) (step_number request)
                                (image_base64 request))"
          obtain r sent' where c: "call_chat_api (completions_create env) ?messages API_MAX_RETRIES = (r, sent')"
            by (cases "call_chat_api (completions_create env) ?messages API_MAX_RETRIES") auto
          have "\<exists>messages.
            sent = snd (call_chat_api (completions_create env) messages API_MAX_RETRIES) \<and>
            (case fst (call_chat_api (completions_create env) messages API_MAX_RETRIES) of
               Inl e \<Rightarrow> res = Inl e \<and> cooking_sessions' = cooking_sessions
             | Inr rep \<Rightarrow>
                 (\<exists>r. res = Inr r \<and> reply r = rep) \<and>
                 cooking_sessions' = cooking_sessions(session_id request \<mapsto>
                   s\<lparr>chat_history := chat_history s @ [user_entry request,
                                                        assistant_entry rep (step_number request)],
                     current_step := step_number request,
                     created_at := now\<rparr>))"
            using assms img sl vs ix Inr c \<open>cooking_sessions (session_id request) = Some s\<close>
            by (intro exI [of _ ?messages], cases r)
               (auto simp: send_message_def get_session_def Let_def)
          then show ?thesis
            using \<open>cooking_sessions (session_id request) = Some s\<close> by blast
        qed
        qed
      qed
      qed
    qed
  qed
qed

text \<open>
  Claim C5. A turn that returns an error leaves the sessions as they were, so the history of
  the session is unchanged; a turn that returns a response has appended to the history of its
  session exactly two entries, the user's turn and then the assistant's reply, and has set
  \<open>current_step\<close> and the activity time. When the provider was called, the turn returns an
  error exactly when the provider call failed, and the reply otherwise; when it was not
  called, the turn returns an error.
\<close>

theorem turn_commits_atomically:
  assumes "send_message env cooking_sessions request now = (res, cooking_sessions', sent)"
  shows "(\<forall>e. res = Inl e \<longrightarrow> cooking_sessions' = cooking_sessions) \<and>
         (\<forall>r. res = Inr r \<longrightarrow>
            (\<exists>s. cooking_sessions (session_id request) = Some s \<and>
               cooking_sessions' = cooking_sessions(session_id request \<mapsto>
                 s\<lparr>chat_history := chat_history s @ [user_entry request,
                                                      assistant_entry (reply r) (step_number request)],
                   current_step := step_number request,
                   created_at := now\<rparr>))) \<and>
         (\<forall>messages \<in> set sent.
            case fst (call_chat_api (completions_create env) messages API_MAX_RETRIES) of
              Inl e \<Rightarrow> res = Inl e
            | Inr rep \<Rightarrow> (\<exists>r. res = Inr r \<and> reply r = rep)) \<and>
         (sent = [] \<longrightarrow> (\<exists>e. res = Inl e)) \<and>
         map_of (user_entry request) ''role'' = Some (PStr (py ''user'')) \<and>
         (\<forall>rep n. map_of (assistant_entry rep n) ''role'' = Some (PStr (py ''assistant'')) \<and>
                  map_of (assistant_entry rep n) ''content'' = Some (PStr rep))"
proof -
  have roles: "map_of (user_entry request) ''role'' = Some (PStr (py ''user'')) \<and>
         (\<forall>rep n. map_of (assistant_entry rep n) ''role'' = Some (PStr (py ''assistant'')) \<and>
                  map_of (assistant_entry rep n) ''content'' = Some (PStr rep))"
    by (simp add: user_entry_def assistant_entry_def)
  from send_message_cases [OF assms]
  consider (early) e where "res = Inl e" "cooking_sessions' = cooking_sessions" "sent = []"
    | (called) s messages where
        "cooking_sessions (session_id request) = Some s"
        "sent = snd (call_chat_api (completions_create env) messages API_MAX_RETRIES)"
        "(case fst (call_chat_api (completions_create env) messages API_MAX_RETRIES) of
               Inl e \<Rightarrow> res = Inl e \<and> cooking_sessions' = cooking_sessions
             | Inr rep \<Rightarrow>
                 (\<exists>r. res = Inr r \<and> reply r = rep) \<and>
                 cooking_sessions' = cooking_sessions(session_id request \<mapsto>
                   s\<lparr>chat_history := chat_history s @ [user_entry request,
                                                        assistant_entry rep (step_number request)],
                     current_step := step_number request,
                     created_at := now\<rparr>))"
    by blast
  then show ?thesis
  proof cases
    case early
    then show ?thesis using roles by simp
  next
    case called
    have ne: "sent \<noteq> []"
      using called(2) call_chat_api_sent_nonempty [of API_MAX_RETRIES "completions_create env" messages]
      by (simp add: API_MAX_RETRIES_def)
    have same: "\<And>x. x \<in> set sent \<Longrightarrow> x = messages"
      using called(2) call_chat_api_sent [of _ "completions_create env" messages API_MAX_RETRIES]
      by simp
    have third: "\<forall>m \<in> set sent.
            case fst (call_chat_api (completions_create env) m API_MAX_RETRIES) of
              Inl e \<Rightarrow> res = Inl e
            | Inr rep \<Rightarrow> (\<exists>r. res = Inr r \<and> reply r = rep)"
    proof
      fix m assume "m \<in> set sent"
      then have "m = messages" by (rule same)
      then show "case fst (call_chat_api (completions_create env) m API_MAX_RETRIES) of
              Inl e \<Rightarrow> res = Inl e
            | Inr rep \<Rightarrow> (\<exists>r. res = Inr r \<and> reply r = rep)"
        using called(3) by (auto split: sum.splits)
    qed
    have first: "\<forall>e. res = Inl e \<longrightarrow> cooking_sessions' = cooking_sessions"
      using called(3) by (auto split: sum.splits)
    have second: "\<forall>r. res = Inr r \<longrightarrow>
            (\<exists>s. cooking_sessions (session_id request) = Some s \<and>
               cooking_sessions' = cooking_sessions(session_id request \<mapsto>
                 s\<lparr>chat_history := chat_history s @ [user_entry request,
                                                      assistant_entry (reply r) (step_number request)],
                   current_step := step_number request,
                   created_at := now\<rparr>))"
      using called(1,3) by (auto split: sum.splits)
    show ?thesis
      using first second third ne roles by blast
  qed
qed

theorem turn_commits_atomically_witness:
  "send_message (demo_chat_env\<lparr>completions_create := api_always_error\<rparr>)
     (demo_sessions([115] \<mapsto> demo_session_1)) demo_request 5 =
    (Inl (HTTPException 500 (msg_ai_failed @ py ''server error'')),
     demo_sessions([115] \<mapsto> demo_session_1),
     replicate 3 (build_messages (py ''prompt'') [] (build_user_content (py ''done?'') 3 None))) \<and>
   (\<exists>r sent. send_message demo_chat_env (demo_sessions([115] \<mapsto> demo_session_1)) demo_request 5 =
      (Inr r,
       demo_sessions([115] \<mapsto>
         demo_session_1\<lparr>chat_history := chat_history demo_session_1 @
                            [user_entry demo_request, assistant_entry (py ''stir gently'') 3],
                        current_step := 3, created_at := 5\<rparr>),
       sent) \<and> reply r = py ''stir gently'' \<and> sent \<noteq> [])"
  using turn_commits_atomically [OF demo_send_3_failing] turn_commits_atomically [OF demo_send_3]
    demo_send_3_failing demo_send_3
  by (simp add: demo_session_1_def)

text \<open>
  Claim C9. A turn with an image whose decoded size is above \<open>MAX_IMAGE_SIZE_BYTES\<close>
  (10 MB) is rejected with status 400; no request is sent to the provider and the sessions
  are unchanged.
\<close>

theorem oversized_image_rejected:
  assumes "image_base64 request = Some b" and "b \<noteq> []"
    and "b64decode env b = Inr image_bytes"
    and "length image_bytes > MAX_IMAGE_SIZE_BYTES"
  shows "send_message env cooking_sessions request now =
           (Inl (HTTPException 400 msg_image_too_big), cooking_sessions, [])"
  using assms by (simp add: send_message_def validate_image_size_def)

lemma demo_image_bytes_length: "length demo_image_bytes = 15 * 1024 * 1024"
  unfolding demo_image_bytes_def length_replicate by (rule refl)

theorem oversized_image_rejected_witness:
  "image_base64 demo_request_image = Some (py ''aGVsbG8='') \<and> py ''aGVsbG8='' \<noteq> [] \<and>
   b64decode demo_chat_env (py ''aGVsbG8='') = Inr demo_image_bytes \<and>
   length demo_image_bytes > MAX_IMAGE_SIZE_BYTES \<and>
   send_message demo_chat_env demo_sessions demo_request_image 9 =
     (Inl (HTTPException 400 msg_image_too_big), demo_sessions, [])"
proof -
  have a: "image_base64 demo_request_image = Some (py ''aGVsbG8='')"
    by (simp add: demo_request_image_def)
  have b: "py ''aGVsbG8='' \<noteq> []" by (simp add: py_def)
  have c: "b64decode demo_chat_env (py ''aGVsbG8='') = Inr demo_image_bytes"
    by (simp add: demo_chat_env_def)
  have d: "length demo_image_bytes > MAX_IMAGE_SIZE_BYTES"
    by (simp add: demo_image_bytes_length MAX_IMAGE_SIZE_BYTES_def MAX_IMAGE_SIZE_MB_def)
  show ?thesis
    using oversized_image_rejected [OF a b c d] a b c d by simp
qed

subsection \<open>Completing a step\<close>

lemma complete_step_present:
  "cooking_sessions sid = Some s \<Longrightarrow> n \<in> set (completed_steps s) \<Longrightarrow>
   complete_step cooking_sessions sid n =
     (Inr (if n < total_steps s then n + 1 else current_step s,
           int (length (completed_steps s)) = total_steps s),
      cooking_sessions(sid \<mapsto> (if n < total_steps s then s\<lparr>current_step := n + 1\<rparr> else s)))"
  by (simp add: complete_step_def get_session_def Let_def)

text \<open>
  Claim C3, as the code has it. Completing a step that is already in \<open>completed_steps\<close>
  leaves \<open>completed_steps\<close> as it was, so the step is not appended again. \<open>current_step\<close> is
  set to the step after it whenever the step is not the last one, also on the repeated call;
  a second call right after the first therefore changes nothing.
\<close>

theorem complete_step_repeat:
  assumes "cooking_sessions sid = Some s" and "n \<in> set (completed_steps s)"
  shows "\<exists>s'. snd (complete_step cooking_sessions sid n) = cooking_sessions(sid \<mapsto> s') \<and>
           completed_steps s' = completed_steps s \<and>
           current_step s' = (if n < total_steps s then n + 1 else current_step s) \<and>
           complete_step (cooking_sessions(sid \<mapsto> s')) sid n = complete_step cooking_sessions sid n"
proof -
  define s' where "s' = (if n < total_steps s then s\<lparr>current_step := n + 1\<rparr> else s)"
  have 1: "complete_step cooking_sessions sid n =
     (Inr (if n < total_steps s then n + 1 else current_step s,
           int (length (completed_steps s)) = total_steps s),
      cooking_sessions(sid \<mapsto> s'))"
    using complete_step_present [of cooking_sessions sid s n] assms by (simp add: s'_def)
  have c: "completed_steps s' = completed_steps s" and t: "total_steps s' = total_steps s"
    and cs: "current_step s' = (if n < total_steps s then n + 1 else current_step s)"
    by (simp_all add: s'_def)
  have p: "(cooking_sessions(sid \<mapsto> s')) sid = Some s'" by simp
  have n': "n \<in> set (completed_steps s')" using assms(2) c by simp
  have 2: "complete_step (cooking_sessions(sid \<mapsto> s')) sid n = complete_step cooking_sessions sid n"
    unfolding complete_step_present [of "cooking_sessions(sid \<mapsto> s')" sid s' n, OF p n'] 1
    by (simp add: c t cs s'_def)
  show ?thesis
    using 1 2 c cs by (intro exI [of _ s']) simp
qed

theorem complete_step_repeat_witness:
  "(demo_sessions([115] \<mapsto> demo_session_1)) [115] = Some demo_session_1 \<and>
   1 \<in> set (completed_steps demo_session_1) \<and>
   (\<exists>s'. snd (complete_step (demo_sessions([115] \<mapsto> demo_session_1)) [115] 1) =
            demo_sessions([115] \<mapsto> s') \<and>
         completed_steps s' = [1] \<and> current_step s' = 2 \<and>
         complete_step (demo_sessions([115] \<mapsto> s')) [115] 1 =
           complete_step (demo_sessions([115] \<mapsto> demo_session_1)) [115] 1)"
  using complete_step_repeat [of "demo_sessions([115] \<mapsto> demo_session_1)" "[115]" demo_session_1 1]
  by (simp add: demo_session_1_def)

theorem repeated_complete_step_resets_current_step:
  "map_option completed_steps (snd (complete_step demo_sessions [115] 1) [115]) = Some [1] \<and>
   map_option current_step
     (fst (snd (send_message demo_chat_env (snd (complete_step demo_sessions [115] 1))
                  demo_request 5)) [115]) = Some 3 \<and>
   map_option current_step
     (snd (complete_step
             (fst (snd (send_message demo_chat_env (snd (complete_step demo_sessions [115] 1))
                          demo_request 5))) [115] 1) [115]) = Some 2"
  by (simp add: demo_complete_1 demo_send_3)
     (simp add: demo_session_1_def complete_step_def get_session_def Let_def)

subsection \<open>Step numbers out of range\<close>

text \<open>
  \<open>send_message\<close> validates the step number before the provider is called and before the
  session is changed.
\<close>

lemma send_message_rejects_bad_step:
  "cooking_sessions (session_id request) = Some s \<Longrightarrow> image_base64 request = None \<Longrightarrow>
   steps_len (steps s) = Inr n \<Longrightarrow>
   step_number request < 1 \<or> step_number request > int n \<Longrightarrow>
   send_message env cooking_sessions request now =
     (Inl (HTTPException 400 msg_bad_step), cooking_sessions, [])"
  by (simp add: send_message_def get_session_def validate_step_number_def)

lemma send_message_step_in_range:
  assumes "send_message env cooking_sessions request now = (Inr r, cooking_sessions', sent)"
    and "cooking_sessions (session_id request) = Some s"
  shows "\<exists>n. steps_len (steps s) = Inr n \<and>
           1 \<le> step_number request \<and> step_number request \<le> int n"
proof (cases "steps_len (steps s)")
  case (Inl e)
  then show ?thesis
    using assms by (auto simp: send_message_def get_session_def split: option.splits if_splits sum.splits)
next
  case (Inr n)
  show ?thesis
  proof (rule ccontr)
    assume "\<not> ?thesis"
    then have "validate_step_number (step_number request) (int n) =
                 Some (HTTPException 400 msg_bad_step)"
      using Inr by (auto simp: validate_step_number_def)
    then show False
      using assms Inr
      by (auto simp: send_message_def get_session_def split: option.splits if_splits sum.splits)
  qed
qed

text \<open>
  Claim C1 fails in \<open>complete_step\<close>, which does not call \<open>_validate_step_number\<close>: in a
  session of three steps, completing step 7 is accepted and puts 7 into \<open>completed_steps\<close>,
  and completing step -3 is accepted and sets \<open>current_step\<close> to -2.
\<close>

theorem complete_step_out_of_range:
  "fst (complete_step demo_sessions [115] 7) = Inr (1, False) \<and>
   map_option completed_steps (snd (complete_step demo_sessions [115] 7) [115]) = Some [7] \<and>
   map_option total_steps (snd (complete_step demo_sessions [115] 7) [115]) = Some 3 \<and>
   fst (complete_step demo_sessions [115] (- 3)) = Inr (- 2, False) \<and>
   map_option current_step (snd (complete_step demo_sessions [115] (- 3)) [115]) = Some (- 2)"
  by (simp add: complete_step_def get_session_def demo_session Let_def)


section \<open>The sweep of create_job keeps the most recent records\<close>

subsection \<open>Lists in creation order\<close>

lemma sorted_filter_prefix:
  "sorted (map f xs) \<Longrightarrow>
   filter (\<lambda>p. f p < (th::int)) xs = take (length (filter (\<lambda>p. f p < th) xs)) xs \<and>
   filter (\<lambda>p. \<not> f p < th) xs = drop (length (filter (\<lambda>p. f p < th) xs)) xs"
proof (induction xs)
  case Nil
  show ?case by simp
next
  case (Cons x xs)
  show ?case
  proof (cases "f x < th")
    case True
    then show ?thesis using Cons by simp
  next
    case False
    then have all: "\<forall>p \<in> set xs. \<not> f p < th" using Cons.prems by auto
    then have "filter (\<lambda>p. f p < th) xs = []" "filter (\<lambda>p. \<not> f p < th) xs = xs"
      by (simp_all add: filter_empty_conv filter_id_conv)
    then show ?thesis using False by simp
  qed
qed

lemma expired_count_drop:
  assumes "sorted (map f xs)"
  shows "length (filter (\<lambda>p. f p < (th::int)) (drop k xs)) = length (filter (\<lambda>p. f p < th) xs) - k"
proof -
  define e where "e = length (filter (\<lambda>p. f p < th) xs)"
  have t: "filter (\<lambda>p. f p < th) xs = take e xs"
    and dr: "filter (\<lambda>p. \<not> f p < th) xs = drop e xs"
    unfolding e_def using sorted_filter_prefix [OF assms, of th] by blast+
  have le: "e \<le> length xs" unfolding e_def by (rule length_filter_le)
  have "set (take e xs) = set (filter (\<lambda>p. f p < th) xs)"
    by (simp only: t)
  then have ex: "\<forall>p \<in> set (take e xs). f p < th" by simp
  have "set (drop e xs) = set (filter (\<lambda>p. \<not> f p < th) xs)"
    by (simp only: dr)
  then have ne: "\<forall>p \<in> set (drop e xs). \<not> f p < th" by simp
  have "drop k (take e xs @ drop e xs) =
          drop k (take e xs) @ drop (k - length (take e xs)) (drop e xs)"
    by (rule drop_append)
  then have d: "drop k xs = drop k (take e xs) @ drop (k - e) (drop e xs)"
    using le by (simp add: min.absorb2)
  have 1: "filter (\<lambda>p. f p < th) (drop k (take e xs)) = drop k (take e xs)"
    using ex by (auto simp: filter_id_conv dest: in_set_dropD)
  have "\<forall>p \<in> set (drop (k - e) (drop e xs)). \<not> f p < th"
    using ne in_set_dropD [of _ "k - e" "drop e xs"] by blast
  then have 2: "filter (\<lambda>p. f p < th) (drop (k - e) (drop e xs)) = []"
    by (simp only: filter_empty_conv)
  have "filter (\<lambda>p. f p < th) (drop k xs) = drop k (take e xs)"
    by (subst d) (simp only: filter_append 1 2 append_Nil2)
  then have "length (filter (\<lambda>p. f p < th) (drop k xs)) = e - k"
    using le by simp
  then show ?thesis by (simp only: e_def)
qed

lemma expired_count_mono:
  "th \<le> th' \<Longrightarrow>
   length (filter (\<lambda>p. f p < (th::int)) xs) \<le> length (filter (\<lambda>p. f p < th') (xs @ ys))"
proof -
  assume a: "th \<le> th'"
  have "length (filter (\<lambda>p. f p < th) xs) \<le> length (filter (\<lambda>p. f p < th') xs)"
  proof (induction xs)
    case Nil show ?case by simp
  next
    case (Cons x xs) then show ?case using a by auto
  qed
  then show ?thesis by simp
qed

lemma removal_effects_append:
  "removal_effects (xs @ ys) = removal_effects xs @ removal_effects ys"
  by (simp add: removal_effects_def)

subsection \<open>The two loops of the sweep\<close>

lemma expired_jobs_wf:
  "\<forall>p \<in> set L. snd p ''created_at'' = Some (PTime (created_time p)) \<Longrightarrow>
   expired_jobs now th L = Inr (map fst (filter (\<lambda>p. created_time p < th) L))"
proof (induction L)
  case Nil show ?case by simp
next
  case (Cons p L)
  obtain k j where p: "p = (k, j)" by (cases p)
  have "is_expired now th j = Inr (created_time p < th)"
    using Cons.prems p by (simp add: is_expired_def)
  then show ?case using Cons p by simp
qed

lemma delete_expired_effects:
  "effects (delete_expired m ids) = effects m @ concat (map (\<lambda>k. [RmTree k, DelJob k]) ids)"
  by (induction ids arbitrary: m) (auto simp: cleanup_job_files_def)

lemma delete_expired_params:
  "max_jobs (delete_expired m ids) = max_jobs m \<and> expire_hours (delete_expired m ids) = expire_hours m"
  by (induction ids arbitrary: m) (auto simp: cleanup_job_files_def)

lemma filter_not_in_keys:
  assumes "distinct (map fst L)"
  shows "filter (\<lambda>p. fst p \<notin> set (map fst (filter P L))) L = filter (\<lambda>p. \<not> P p) L"
proof (rule filter_cong [OF refl])
  fix p assume p: "p \<in> set L"
  have inj: "inj_on fst (set L)" using assms by (simp add: distinct_map)
  show "(fst p \<notin> set (map fst (filter P L))) = (\<not> P p)"
  proof
    assume "fst p \<notin> set (map fst (filter P L))"
    then show "\<not> P p" using p by force
  next
    assume np: "\<not> P p"
    show "fst p \<notin> set (map fst (filter P L))"
    proof
      assume "fst p \<in> set (map fst (filter P L))"
      then obtain q where "q \<in> set L" "P q" "fst q = fst p" by auto
      then have "q = p" using inj p by (auto dest: inj_onD)
      then show False using \<open>P q\<close> np by simp
    qed
  qed
qed

lemma removal_effects_keys:
  "concat (map (\<lambda>k. [RmTree k, DelJob k]) (map fst ps)) = removal_effects ps"
  by (simp add: removal_effects_def comp_def)

lemma evict_over_capacity_result:
  "0 \<le> max_jobs m \<Longrightarrow> distinct (map fst (jobs m)) \<Longrightarrow>
   \<exists>m'. evict_over_capacity m = Inr m' \<and>
        jobs m' = drop (length (jobs m) - nat (max_jobs m)) (jobs m) \<and>
        effects m' = effects m @ removal_effects (take (length (jobs m) - nat (max_jobs m)) (jobs m)) \<and>
        max_jobs m' = max_jobs m \<and> expire_hours m' = expire_hours m"
proof (induction m rule: evict_over_capacity.induct)
  case (1 m)
  show ?case
  proof (cases "int (length (jobs m)) > max_jobs m")
    case False
    then have "length (jobs m) - nat (max_jobs m) = 0" by simp
    then show ?thesis using False
      by (simp add: evict_over_capacity.simps [of m] removal_effects_def)
  next
    case True
    then obtain k v rest where j: "jobs m = (k, v) # rest"
      using "1.prems" by (cases "jobs m") auto
    let ?m1 = "(cleanup_job_files m k)\<lparr>jobs := od_del k (jobs m),
                 effects := effects (cleanup_job_files m k) @ [DelJob k]\<rparr>"
    have rest: "od_del k (jobs m) = rest"
      using "1.prems"(2) j by (auto simp: od_del_def filter_id_conv rev_image_eqI)
    have m1: "jobs ?m1 = rest" "max_jobs ?m1 = max_jobs m" "expire_hours ?m1 = expire_hours m"
      "effects ?m1 = effects m @ [RmTree k, DelJob k]"
      using rest by (simp_all add: cleanup_job_files_def)
    have "0 \<le> max_jobs ?m1" "distinct (map fst (jobs ?m1))"
      using "1.prems" j m1 by simp_all
    from "1.IH" [OF True j refl this]
    obtain m' where e: "evict_over_capacity ?m1 = Inr m'"
      and r: "jobs m' = drop (length rest - nat (max_jobs m)) rest"
        "effects m' = (effects m @ [RmTree k, DelJob k]) @
                        removal_effects (take (length rest - nat (max_jobs m)) rest)"
        "max_jobs m' = max_jobs m" "expire_hours m' = expire_hours m"
      using m1 by auto
    have ev: "evict_over_capacity m = Inr m'"
      using True j e by (simp add: evict_over_capacity.simps [of m])
    have n: "Suc (length rest) - nat (max_jobs m) = Suc (length rest - nat (max_jobs m))"
      using True j "1.prems"(1) by auto
    show ?thesis
      using ev r j by (simp add: n removal_effects_def)
  qed
qed

lemma cleanup_old_jobs_result:
  fixes now :: int
  assumes wf: "\<forall>p \<in> set (jobs m). snd p ''created_at'' = Some (PTime (created_time p))"
    and d: "distinct (map fst (jobs m))"
    and s: "sorted (map created_time (jobs m))"
    and M: "0 \<le> max_jobs m"
  defines "th \<equiv> now - timedelta_hours (expire_hours m)"
  defines "c \<equiv> max (length (filter (\<lambda>p. created_time p < th) (jobs m)))
                    (length (jobs m) - nat (max_jobs m))"
  shows "\<exists>m'. cleanup_old_jobs m now = Inr m' \<and> jobs m' = drop c (jobs m) \<and>
           effects m' = effects m @ removal_effects (take c (jobs m)) \<and>
           max_jobs m' = max_jobs m \<and> expire_hours m' = expire_hours m"
proof -
  let ?L = "jobs m"
  let ?ex = "\<lambda>p. created_time p < th"
  let ?e = "length (filter ?ex ?L)"
  let ?ids = "map fst (filter ?ex ?L)"
  let ?m1 = "delete_expired m ?ids"
  have le: "?e \<le> length ?L" by (rule length_filter_le)
  have sp: "filter ?ex ?L = take ?e ?L" "filter (\<lambda>p. \<not> ?ex p) ?L = drop ?e ?L"
    using sorted_filter_prefix [OF s, of th] by blast+
  have ej: "expired_jobs now th ?L = Inr ?ids"
    by (rule expired_jobs_wf [OF wf])
  have j1: "jobs ?m1 = drop ?e ?L"
    using filter_not_in_keys [OF d, of ?ex] sp(2) by (simp add: delete_expired_jobs)
  have "effects ?m1 = effects m @ removal_effects (filter ?ex ?L)"
    by (simp add: delete_expired_effects removal_effects_def comp_def)
  then have e1: "effects ?m1 = effects m @ removal_effects (take ?e ?L)"
    by (subst sp(1) [symmetric])
  have p1: "max_jobs ?m1 = max_jobs m" "expire_hours ?m1 = expire_hours m"
    by (simp_all add: delete_expired_params)
  have "0 \<le> max_jobs ?m1" "distinct (map fst (jobs ?m1))"
    using M d p1 j1 by (simp_all add: distinct_drop flip: drop_map)
  from evict_over_capacity_result [OF this]
  obtain m' where ev: "evict_over_capacity ?m1 = Inr m'"
    and r: "jobs m' = drop (length (drop ?e ?L) - nat (max_jobs m)) (drop ?e ?L)"
      "effects m' = (effects m @ removal_effects (take ?e ?L)) @
         removal_effects (take (length (drop ?e ?L) - nat (max_jobs m)) (drop ?e ?L))"
      "max_jobs m' = max_jobs m" "expire_hours m' = expire_hours m"
    using j1 e1 p1 by auto
  let ?b = "length (drop ?e ?L) - nat (max_jobs m)"
  have c: "c = ?e + ?b" using le by (auto simp: c_def)
  have "take c ?L = take ?e ?L @ take ?b (drop ?e ?L)"
    unfolding c by (simp add: take_add)
  moreover have "drop c ?L = drop ?b (drop ?e ?L)"
    unfolding c by (simp add: add.commute)
  moreover have "cleanup_old_jobs m now = Inr m'"
    using ej ev by (simp add: cleanup_old_jobs_def th_def)
  ultimately show ?thesis
    using r by (simp add: removal_effects_append)
qed

subsection \<open>One call of create_job on a store in creation order\<close>

lemma od_set_fresh: "k \<notin> fst ` set xs \<Longrightarrow> od_set k v xs = xs @ [(k, v)]"
  by (induction xs) auto

lemma created_record_simps:
  "fst (created_record c) = c_job_id c"
  "created_time (created_record c) = t_created c"
  "snd (created_record c) ''created_at'' = Some (PTime (t_created c))"
  by (simp_all add: created_record_def created_time_def new_job_def)

lemma sweep_count_arith:
  fixes k e n M :: nat
  assumes "k \<le> max e (n - M)"
  shows "max (e - k) (n - k - M) + k = max e (n - M)"
  using assms by (auto simp: max_def split: if_splits)

lemma create_job_step:
  fixes now :: int
  assumes jm: "jobs m = drop k X" and em: "effects m = removal_effects (take k X)"
    and kX: "k \<le> length X"
    and x: "x = (job_id, new_job job_id url vid t1 t2)"
    and wf: "\<forall>p \<in> set (X @ [x]). snd p ''created_at'' = Some (PTime (created_time p))"
    and d: "distinct (map fst (X @ [x]))"
    and s: "sorted (map created_time (X @ [x]))"
    and M: "0 \<le> max_jobs m"
    and kk: "k \<le> max (length (filter (\<lambda>p. created_time p < now - timedelta_hours (expire_hours m)) (X @ [x])))
                      (length (X @ [x]) - nat (max_jobs m))"
  shows "\<exists>m'. create_job m job_id url vid t1 t2 now = Inr (snd x, m') \<and>
           jobs m' = drop (max (length (filter (\<lambda>p. created_time p < now - timedelta_hours (expire_hours m)) (X @ [x])))
                               (length (X @ [x]) - nat (max_jobs m))) (X @ [x]) \<and>
           effects m' = removal_effects
                          (take (max (length (filter (\<lambda>p. created_time p < now - timedelta_hours (expire_hours m)) (X @ [x])))
                                     (length (X @ [x]) - nat (max_jobs m))) (X @ [x])) \<and>
           max_jobs m' = max_jobs m \<and> expire_hours m' = expire_hours m"
proof -
  define X' where "X' = X @ [x]"
  define th where "th = now - timedelta_hours (expire_hours m)"
  define e' where "e' = length (filter (\<lambda>p. created_time p < th) X')"
  define kf where "kf = max e' (length X' - nat (max_jobs m))"
  define m1 where "m1 = m\<lparr>jobs := od_set job_id (new_job job_id url vid t1 t2) (jobs m)\<rparr>"
  have fresh: "job_id \<notin> fst ` set (drop k X)"
    using d x by (auto dest: in_set_dropD)
  have j1: "jobs m1 = drop k X'"
    using fresh kX by (simp add: m1_def jm od_set_fresh X'_def x)
  have p1: "max_jobs m1 = max_jobs m" "expire_hours m1 = expire_hours m" "effects m1 = effects m"
    by (simp_all add: m1_def)
  have wf1: "\<forall>p \<in> set (jobs m1). snd p ''created_at'' = Some (PTime (created_time p))"
    using wf j1 by (auto simp: X'_def dest: in_set_dropD)
  have "distinct (drop k (map fst X'))"
    using d unfolding X'_def by (rule distinct_drop)
  then have d1: "distinct (map fst (jobs m1))"
    by (simp only: j1 drop_map)
  have "sorted (drop k (map created_time X'))"
    using s unfolding X'_def by (rule sorted_wrt_drop)
  then have s1: "sorted (map created_time (jobs m1))"
    by (simp only: j1 drop_map)
  have M1: "0 \<le> max_jobs m1" using M p1 by simp
  define c where "c = max (length (filter (\<lambda>p. created_time p < th) (drop k X')))
                         (length (drop k X') - nat (max_jobs m))"
  from cleanup_old_jobs_result [OF wf1 d1 s1 M1, of now]
  obtain m' where cl: "cleanup_old_jobs m1 now = Inr m'"
    and r: "jobs m' = drop c (drop k X')"
      "effects m' = effects m @ removal_effects (take c (drop k X'))"
      "max_jobs m' = max_jobs m" "expire_hours m' = expire_hours m"
    unfolding j1 p1 c_def th_def by blast
  have cnt: "length (filter (\<lambda>p. created_time p < th) (drop k X')) = e' - k"
    unfolding e'_def using expired_count_drop [of created_time X' th k] s by (simp add: X'_def)
  have kk': "k \<le> max e' (length X' - nat (max_jobs m))"
    using kk unfolding e'_def th_def X'_def .
  have len: "length (drop k X') = length X' - k" by (rule length_drop)
  have ck: "c + k = kf"
    unfolding c_def cnt len kf_def by (rule sweep_count_arith [OF kk'])
  have tk: "take k X = take k X'" using kX by (simp add: X'_def)
  have kc: "kf = k + c" using ck by simp
  have "take kf X' = take k X' @ take c (drop k X')"
    unfolding kc by (rule take_add)
  then have eff: "effects m' = removal_effects (take kf X')"
    using r(2) em tk by (simp add: removal_effects_append)
  have jb: "jobs m' = drop kf X'"
    unfolding ck [symmetric] using r(1) by (simp only: drop_drop)
  have cr: "create_job m job_id url vid t1 t2 now = Inr (snd x, m')"
    using cl by (simp add: create_job_def m1_def x Let_def)
  show ?thesis
    using cr jb eff r(3,4) unfolding kf_def e'_def th_def X'_def by blast
qed

subsection \<open>A sequence of calls of create_job\<close>

lemma run_creates_snoc:
  "run_creates m (cs @ [c]) =
     (case run_creates m cs of
        Inl e \<Rightarrow> Inl e
      | Inr m' \<Rightarrow>
          (case create_job m' (c_job_id c) (c_url c) (c_video_id c) (t_created c) (t_updated c)
                  (t_sweep c) of
             Inl e \<Rightarrow> Inl e
           | Inr (j, m'') \<Rightarrow> Inr m''))"
  by (induction cs arbitrary: m) (auto split: sum.splits prod.splits)

lemma clock_readings_append:
  "clock_readings (as @ bs) = clock_readings as @ clock_readings bs"
  by (simp add: clock_readings_def)

lemma clock_readings_set:
  "c \<in> set cs \<Longrightarrow> t_created c \<in> set (clock_readings cs) \<and> t_sweep c \<in> set (clock_readings cs)"
  by (auto simp: clock_readings_def)

lemma clock_sorted:
  "sorted (clock_readings cs) \<Longrightarrow> sorted (map t_created cs) \<and> sorted (map t_sweep cs)"
proof (induction cs)
  case Nil
  show ?case by simp
next
  case (Cons c cs)
  have cr: "clock_readings (c # cs) = t_created c # t_updated c # t_sweep c # clock_readings cs"
    by (simp add: clock_readings_def)
  have s: "sorted (clock_readings cs)"
    and b: "\<forall>y \<in> set (clock_readings cs). t_created c \<le> y \<and> t_sweep c \<le> y"
    using Cons.prems unfolding cr by auto
  have "\<forall>x \<in> set cs. t_created c \<le> t_created x \<and> t_sweep c \<le> t_sweep x"
    using b clock_readings_set by blast
  then show ?case using Cons.IH [OF s] by auto
qed

lemma last_sweep_le:
  assumes "sorted (clock_readings (cs @ [c]))" and "cs \<noteq> []"
  shows "t_sweep (last cs) \<le> t_sweep c"
proof -
  have "sorted (map t_sweep (cs @ [c]))" using clock_sorted [OF assms(1)] by blast
  then have "\<forall>x \<in> set cs. t_sweep x \<le> t_sweep c" by (auto simp: sorted_append)
  then show ?thesis using assms(2) by simp
qed

lemma run_creates_invariant:
  assumes "jobs m0 = []" and "effects m0 = []" and "0 \<le> max_jobs m0"
  shows "distinct (map c_job_id cs) \<Longrightarrow> sorted (clock_readings cs) \<Longrightarrow>
     \<exists>m k. run_creates m0 cs = Inr m \<and>
        jobs m = drop k (map created_record cs) \<and>
        effects m = removal_effects (take k (map created_record cs)) \<and>
        k \<le> length cs \<and> max_jobs m = max_jobs m0 \<and> expire_hours m = expire_hours m0 \<and>
        (cs \<noteq> [] \<longrightarrow>
           k = max (length (filter (\<lambda>p. created_time p < t_sweep (last cs) - timedelta_hours (expire_hours m0))
                              (map created_record cs)))
                   (length cs - nat (max_jobs m0)))"
proof (induction cs rule: rev_induct)
  case Nil
  show ?case using assms by (simp add: removal_effects_def)
next
  case (snoc c cs)
  let ?X = "map created_record cs"
  let ?x = "created_record c"
  let ?th = "t_sweep c - timedelta_hours (expire_hours m0)"
  have dc: "distinct (map c_job_id cs)" using snoc.prems(1) by simp
  have sc: "sorted (clock_readings cs)"
    using snoc.prems(2) by (simp add: clock_readings_append sorted_append)
  from snoc.IH [OF dc sc]
  obtain m k where rc: "run_creates m0 cs = Inr m"
    and jm: "jobs m = drop k ?X" and em: "effects m = removal_effects (take k ?X)"
    and kX: "k \<le> length ?X" and pm: "max_jobs m = max_jobs m0" "expire_hours m = expire_hours m0"
    and kv: "cs \<noteq> [] \<longrightarrow>
           k = max (length (filter (\<lambda>p. created_time p < t_sweep (last cs) - timedelta_hours (expire_hours m0)) ?X))
                   (length cs - nat (max_jobs m0))"
    by auto
  have x: "?x = (c_job_id c, new_job (c_job_id c) (c_url c) (c_video_id c) (t_created c) (t_updated c))"
    by (simp add: created_record_def)
  have wf: "\<forall>p \<in> set (?X @ [?x]). snd p ''created_at'' = Some (PTime (created_time p))"
    by (auto simp: created_record_simps)
  have mf: "map fst (?X @ [?x]) = map c_job_id (cs @ [c])"
    by (simp add: created_record_simps comp_def)
  have d: "distinct (map fst (?X @ [?x]))"
    unfolding mf using snoc.prems(1) .
  have mt: "map created_time (?X @ [?x]) = map t_created (cs @ [c])"
    by (simp add: created_record_simps comp_def)
  have s: "sorted (map created_time (?X @ [?x]))"
    unfolding mt using clock_sorted [OF snoc.prems(2)] by blast
  have M: "0 \<le> max_jobs m" using assms(3) pm by simp
  have kk: "k \<le> max (length (filter (\<lambda>p. created_time p < t_sweep c - timedelta_hours (expire_hours m)) (?X @ [?x])))
                      (length (?X @ [?x]) - nat (max_jobs m))"
  proof (cases "cs = []")
    case True
    then show ?thesis using kX by simp
  next
    case False
    have le: "t_sweep (last cs) - timedelta_hours (expire_hours m0) \<le> ?th"
      using last_sweep_le [OF snoc.prems(2) False] by simp
    have "length (filter (\<lambda>p. created_time p < t_sweep (last cs) - timedelta_hours (expire_hours m0)) ?X)
            \<le> length (filter (\<lambda>p. created_time p < ?th) (?X @ [?x]))"
      by (rule expired_count_mono [OF le])
    moreover have "length cs - nat (max_jobs m0) \<le> length (?X @ [?x]) - nat (max_jobs m0)"
      by simp
    ultimately show ?thesis using kv False unfolding pm by (simp add: max_def)
  qed
  from create_job_step [OF jm em kX x wf d s M kk]
  obtain m' where cj: "create_job m (c_job_id c) (c_url c) (c_video_id c) (t_created c) (t_updated c)
                          (t_sweep c) = Inr (snd ?x, m')"
    and r: "jobs m' = drop (max (length (filter (\<lambda>p. created_time p < ?th) (?X @ [?x])))
                               (length (?X @ [?x]) - nat (max_jobs m0))) (?X @ [?x])"
      "effects m' = removal_effects
                          (take (max (length (filter (\<lambda>p. created_time p < ?th) (?X @ [?x])))
                                     (length (?X @ [?x]) - nat (max_jobs m0))) (?X @ [?x]))"
      "max_jobs m' = max_jobs m0" "expire_hours m' = expire_hours m0"
    unfolding pm by blast
  let ?k' = "max (length (filter (\<lambda>p. created_time p < ?th) (?X @ [?x])))
                 (length (?X @ [?x]) - nat (max_jobs m0))"
  have run: "run_creates m0 (cs @ [c]) = Inr m'"
    using rc cj by (simp add: run_creates_snoc)
  have kle: "?k' \<le> length (cs @ [c])"
  proof -
    have "length (filter (\<lambda>p. created_time p < ?th) (?X @ [?x])) \<le> length (?X @ [?x])"
      by (rule length_filter_le)
    then show ?thesis by simp
  qed
  have XX: "map created_record (cs @ [c]) = ?X @ [?x]" by simp
  have lenX: "length (?X @ [?x]) = length (cs @ [c])" by simp
  show ?case
    apply (rule exI [of _ m'], rule exI [of _ ?k'])
    unfolding XX
    using run r kle by (simp del: filter_append)
qed

lemma within_window_iff:
  "within_window h now p \<longleftrightarrow> \<not> created_time p < now - timedelta_hours h"
  by (auto simp: within_window_def)

text \<open>
  Claim C2. Take a store that starts empty with capacity \<open>max_jobs \<ge> 0\<close>, and any sequence
  of calls of \<open>create_job\<close> with job ids that differ from each other (the ids are fresh
  UUIDs) and a clock that does not go back. After each call the call succeeds, the store
  holds at most \<open>max_jobs\<close> records, and they are exactly the \<open>max_jobs\<close> most recently
  created among the records created so far whose age at the sweep is within the expiry
  window. The records removed so far are the oldest created ones, removed in creation order,
  and for each of them the files were cleaned just before the record was deleted.
\<close>

theorem create_job_bounded_fifo:
  assumes "jobs m0 = []" and "effects m0 = []" and "0 \<le> max_jobs m0"
    and "distinct (map c_job_id (calls @ [c]))"
    and "sorted (clock_readings (calls @ [c]))"
  shows "\<exists>m. run_creates m0 (calls @ [c]) = Inr m \<and>
           length (jobs m) \<le> nat (max_jobs m0) \<and>
           jobs m = most_recent (nat (max_jobs m0))
                      (filter (within_window (expire_hours m0) (t_sweep c))
                         (map created_record (calls @ [c]))) \<and>
           (\<exists>removed. map created_record (calls @ [c]) = removed @ jobs m \<and>
                       effects m = removal_effects removed)"
proof -
  define X where "X = map created_record (calls @ [c])"
  define th where "th = t_sweep c - timedelta_hours (expire_hours m0)"
  define e where "e = length (filter (\<lambda>p. created_time p < th) X)"
  define M where "M = nat (max_jobs m0)"
  define k where "k = max e (length X - M)"
  from run_creates_invariant [OF assms(1,2,3,4,5)]
  obtain m where run: "run_creates m0 (calls @ [c]) = Inr m"
    and jm: "jobs m = drop k X" and em: "effects m = removal_effects (take k X)"
    unfolding X_def th_def e_def M_def k_def by (auto simp del: filter_append map_append)
  have le: "e \<le> length X" unfolding e_def by (rule length_filter_le)
  have "map created_time X = map t_created (calls @ [c])"
    unfolding X_def by (simp add: created_record_simps comp_def)
  then have s: "sorted (map created_time X)"
    using clock_sorted [OF assms(5)] by simp
  have dr: "filter (\<lambda>p. \<not> created_time p < th) X = drop e X"
    unfolding e_def using sorted_filter_prefix [OF s, of th] by blast
  have "filter (within_window (expire_hours m0) (t_sweep c)) X =
          filter (\<lambda>p. \<not> created_time p < th) X"
    unfolding th_def by (rule filter_cong [OF refl]) (simp add: within_window_iff)
  then have w: "filter (within_window (expire_hours m0) (t_sweep c)) X = drop e X"
    using dr by simp
  have "length (drop e X) - M + e = k"
    using le unfolding k_def by (auto simp: max_def)
  then have mr: "most_recent M (drop e X) = drop k X"
    unfolding most_recent_def by (simp only: drop_drop)
  have len: "length (jobs m) \<le> M"
    unfolding jm k_def by (auto simp: max_def)
  have split: "X = take k X @ jobs m" unfolding jm by simp
  show ?thesis
    using run len w mr jm em split unfolding X_def M_def by metis
qed

lemma demo_run:
  "run_creates empty_store [call_a, call_b, call_c] =
     Inr \<lparr>jobs = [created_record call_b, created_record call_c], max_jobs = 2,
          expire_hours = 1, effects = [RmTree [97], DelJob [97]]\<rparr>"
  by (simp add: empty_store_def call_a_def call_b_def call_c_def create_job_def
        cleanup_old_jobs_def is_expired_def new_job_def timedelta_hours_def
        cleanup_job_files_def od_del_def evict_over_capacity.simps created_record_def Let_def)

theorem create_job_bounded_fifo_witness:
  "jobs empty_store = [] \<and> effects empty_store = [] \<and> 0 \<le> max_jobs empty_store \<and>
   distinct (map c_job_id ([call_a, call_b] @ [call_c])) \<and>
   sorted (clock_readings ([call_a, call_b] @ [call_c])) \<and>
   (\<exists>m. run_creates empty_store ([call_a, call_b] @ [call_c]) = Inr m \<and>
        length (jobs m) \<le> nat (max_jobs empty_store) \<and>
        jobs m = [created_record call_b, created_record call_c] \<and>
        jobs m = most_recent (nat (max_jobs empty_store))
                   (filter (within_window (expire_hours empty_store) (t_sweep call_c))
                      (map created_record ([call_a, call_b] @ [call_c]))) \<and>
        effects m = [RmTree [97], DelJob [97]])"
proof -
  have a: "jobs empty_store = []" "effects empty_store = []" "0 \<le> max_jobs empty_store"
    by (simp_all add: empty_store_def)
  have d: "distinct (map c_job_id ([call_a, call_b] @ [call_c]))"
    by (simp add: call_a_def call_b_def call_c_def)
  have s: "sorted (clock_readings ([call_a, call_b] @ [call_c]))"
    by (simp add: clock_readings_def call_a_def call_b_def call_c_def)
  from create_job_bounded_fifo [OF a d s]
  obtain m where r: "run_creates empty_store ([call_a, call_b] @ [call_c]) = Inr m"
    "length (jobs m) \<le> nat (max_jobs empty_store)"
    "jobs m = most_recent (nat (max_jobs empty_store))
                   (filter (within_window (expire_hours empty_store) (t_sweep call_c))
                      (map created_record ([call_a, call_b] @ [call_c])))"
    by blast
  have m: "m = \<lparr>jobs = [created_record call_b, created_record call_c], max_jobs = 2,
          expire_hours = 1, effects = [RmTree [97], DelJob [97]]\<rparr>"
    using r(1) demo_run by simp
  show ?thesis
    using a d s r m by (intro conjI exI [of _ m]) simp_all
qed


end
